theory Spec2Isabelle
  imports Main "HOL-Library.Word"
begin

unbundle bit_operations_syntax

section \<open>Bytes and runtime failures\<close>

text \<open>
  A Go \<^verbatim>\<open>[]byte\<close> is a list of 8-bit words. Where the program tests a slice against
  \<^verbatim>\<open>nil\<close> the model uses an option, \<open>None\<close> being the nil slice.
\<close>

type_synonym byte = "8 word"
type_synonym bytes = "byte list"
type_synonym u32 = "32 word"

text \<open>
  Every way a call can fail to return: \<^verbatim>\<open>log.Panic\<close> with its message, the runtime
  panics of Go (nil dereference, index out of range), and the errors of the libraries
  (the gob codec, the ECDSA signer, the key-value engine) that the callers hand to
  \<^verbatim>\<open>log.Panic\<close>.
\<close>

datatype error =
    Panic string
  | NilDereference
  | IndexOutOfRange
  | ErrEncode
  | ErrDecode
  | ErrSign
  | ErrKeyRequired
  | ErrKeyTooLarge
  | ErrValueTooLarge

definition bind_err :: "error + 'a \<Rightarrow> ('a \<Rightarrow> error + 'b) \<Rightarrow> error + 'b" where
  "bind_err r f = (case r of Inl e \<Rightarrow> Inl e | Inr x \<Rightarrow> f x)"

fun mapM_err :: "('a \<Rightarrow> error + 'b) \<Rightarrow> 'a list \<Rightarrow> error + 'b list" where
  "mapM_err f [] = Inr []"
| "mapM_err f (x # xs) =
     bind_err (f x) (\<lambda>y. bind_err (mapM_err f xs) (\<lambda>ys. Inr (y # ys)))"

section \<open>SHA-256 (crypto/sha256 of the Go standard library, FIPS 180-4)\<close>

text \<open>
  The round constants and the initial state, in decimal: the first 32 bits of the
  fractional parts of the cube roots of the first 64 primes, and of the square roots of
  the first 8.
\<close>

definition sha256_K :: "u32 list" where
  "sha256_K =
    [1116352408, 1899447441, 3049323471, 3921009573, 961987163, 1508970993,
     2453635748, 2870763221, 3624381080, 310598401, 607225278, 1426881987,
     1925078388, 2162078206, 2614888103, 3248222580, 3835390401, 4022224774,
     264347078, 604807628, 770255983, 1249150122, 1555081692, 1996064986,
     2554220882, 2821834349, 2952996808, 3210313671, 3336571891, 3584528711,
     113926993, 338241895, 666307205, 773529912, 1294757372, 1396182291,
     1695183700, 1986661051, 2177026350, 2456956037, 2730485921, 2820302411,
     3259730800, 3345764771, 3516065817, 3600352804, 4094571909, 275423344,
     430227734, 506948616, 659060556, 883997877, 958139571, 1322822218,
     1537002063, 1747873779, 1955562222, 2024104815, 2227730452, 2361852424,
     2428436474, 2756734187, 3204031479, 3329325298]"

definition sha256_init :: "u32 list" where
  "sha256_init =
    [1779033703, 3144134277, 1013904242, 2773480762, 1359893119, 2600822924, 528734635, 1541459225]"

definition rotr :: "nat \<Rightarrow> u32 \<Rightarrow> u32" where
  "rotr n x = drop_bit n x OR push_bit (32 - n) x"

definition len_bytes :: "64 word \<Rightarrow> bytes" where
  "len_bytes v = map (\<lambda>i. ucast (drop_bit i v)) [56, 48, 40, 32, 24, 16, 8, 0]"

definition sha256_pad :: "bytes \<Rightarrow> bytes" where
  "sha256_pad m =
     m @ [0x80] @ replicate ((119 - length m mod 64) mod 64) 0 @ len_bytes (8 * of_nat (length m))"

fun be_words :: "bytes \<Rightarrow> u32 list" where
  "be_words (a # b # c # d # r) =
     (push_bit 24 (ucast a) OR push_bit 16 (ucast b) OR push_bit 8 (ucast c) OR ucast d) # be_words r"
| "be_words _ = []"

fun sha256_schedule :: "nat \<Rightarrow> u32 list \<Rightarrow> u32 list" where
  "sha256_schedule 0 w = w"
| "sha256_schedule (Suc n) w =
     (let l = length w; w15 = w ! (l - 15); w2 = w ! (l - 2);
          s0 = rotr 7 w15 XOR rotr 18 w15 XOR drop_bit 3 w15;
          s1 = rotr 17 w2 XOR rotr 19 w2 XOR drop_bit 10 w2
      in sha256_schedule n (w @ [w ! (l - 16) + s0 + w ! (l - 7) + s1]))"

fun sha256_round :: "u32 list \<Rightarrow> u32 \<times> u32 \<Rightarrow> u32 list" where
  "sha256_round [a, b, c, d, e, f, g, h] (k, w) =
     (let S1 = rotr 6 e XOR rotr 11 e XOR rotr 25 e;
          ch = (e AND f) XOR (NOT e AND g);
          t1 = h + S1 + ch + k + w;
          S0 = rotr 2 a XOR rotr 13 a XOR rotr 22 a;
          maj = (a AND b) XOR (a AND c) XOR (b AND c);
          t2 = S0 + maj
      in [t1 + t2, a, b, c, d + t1, e, f, g])"
| "sha256_round s _ = s"

definition sha256_block :: "u32 list \<Rightarrow> bytes \<Rightarrow> u32 list" where
  "sha256_block h blk =
     map2 (+) h (foldl sha256_round h (zip sha256_K (sha256_schedule 48 (be_words blk))))"

function sha256_blocks :: "u32 list \<Rightarrow> bytes \<Rightarrow> u32 list" where
  "sha256_blocks h m =
     (if length m < 64 then h else sha256_blocks (sha256_block h (take 64 m)) (drop 64 m))"
  by pat_completeness auto
termination
  by (relation "measure (\<lambda>(h, m). length m)") auto

definition word_bytes :: "u32 \<Rightarrow> bytes" where
  "word_bytes w = [ucast (drop_bit 24 w), ucast (drop_bit 16 w), ucast (drop_bit 8 w), ucast w]"

definition sha256 :: "bytes \<Rightarrow> bytes" where
  "sha256 m = concat (map word_bytes (sha256_blocks sha256_init (sha256_pad m)))"

section \<open>Merkle tree (merkle.go)\<close>

datatype MerkleNode =
  MerkleNode (Left: "MerkleNode option") (Right: "MerkleNode option") (Data: bytes)

record MerkleTree =
  RootNode :: MerkleNode

text \<open>
  \<^verbatim>\<open>NewMerkleNode(left, right, data)\<close>: a leaf hashes \<open>data\<close>; otherwise both
  children are dereferenced, which panics when exactly one of them is nil.
\<close>

definition NewMerkleNode ::
  "MerkleNode option \<Rightarrow> MerkleNode option \<Rightarrow> bytes \<Rightarrow> error + MerkleNode" where
  "NewMerkleNode left right data =
     (if left = None \<and> right = None then Inr (MerkleNode left right (sha256 data))
      else (case left of
              None \<Rightarrow> Inl NilDereference
            | Some l \<Rightarrow>
               (case right of
                  None \<Rightarrow> Inl NilDereference
                | Some r \<Rightarrow> Inr (MerkleNode left right (sha256 (Data l @ Data r))))))"

text \<open>One pass of the inner loop \<^verbatim>\<open>for i := 0; i < len(nodes); i += 2\<close>.\<close>

fun merkle_level :: "MerkleNode list \<Rightarrow> error + MerkleNode list" where
  "merkle_level (a # b # r) =
     bind_err (NewMerkleNode (Some a) (Some b) [])
       (\<lambda>n. bind_err (merkle_level r) (\<lambda>ns. Inr (n # ns)))"
| "merkle_level [a] = Inl IndexOutOfRange"
| "merkle_level [] = Inr []"

lemma merkle_level_length:
  "merkle_level xs = Inr ys \<Longrightarrow> length ys = length xs div 2"
  by (induction xs arbitrary: ys rule: merkle_level.induct)
     (auto simp: bind_err_def split: sum.splits)

text \<open>
  The outer loop \<^verbatim>\<open>for len(nodes) > 1\<close>, which duplicates the last node of an odd
  level before pairing.
\<close>

function merkle_loop :: "MerkleNode list \<Rightarrow> error + MerkleNode list" where
  "merkle_loop nodes =
     (if length nodes > 1 then
        (case merkle_level (if length nodes mod 2 \<noteq> 0 then nodes @ [last nodes] else nodes) of
           Inl e \<Rightarrow> Inl e
         | Inr newLevel \<Rightarrow> merkle_loop newLevel)
      else Inr nodes)"
  by pat_completeness auto
termination
proof (relation "measure length")
  show "wf (measure (length :: MerkleNode list \<Rightarrow> nat))" by simp
next
  fix nodes newLevel :: "MerkleNode list"
  assume big: "1 < length nodes"
    and lvl: "merkle_level (if length nodes mod 2 \<noteq> 0 then nodes @ [last nodes] else nodes)
                = Inr newLevel"
  have "length newLevel
          = length (if length nodes mod 2 \<noteq> 0 then nodes @ [last nodes] else nodes) div 2"
    by (rule merkle_level_length [OF lvl])
  with big have "length newLevel < length nodes"
    by (auto split: if_splits)
  then show "(newLevel, nodes) \<in> measure length" by simp
qed

declare merkle_loop.simps [simp del]

definition NewMerkleTree :: "bytes list \<Rightarrow> error + MerkleTree" where
  "NewMerkleTree data =
     (if length data = 0 then
        (let empty = sha256 []
         in bind_err (NewMerkleNode None None empty) (\<lambda>n. Inr \<lparr>RootNode = n\<rparr>))
      else
        bind_err (mapM_err (\<lambda>datum. NewMerkleNode None None datum) data) (\<lambda>leaves.
        bind_err (merkle_loop leaves) (\<lambda>nodes.
          (case nodes of
             [] \<Rightarrow> Inl IndexOutOfRange
           | n # _ \<Rightarrow> Inr \<lparr>RootNode = n\<rparr>))))"

section \<open>Base58 (wallet/base58.go)\<close>

definition bytes_of_string :: "string \<Rightarrow> bytes" where
  "bytes_of_string s = map of_char s"

definition b58Alphabet :: bytes where
  "b58Alphabet = bytes_of_string ''123456789ABCDEFGHJKLMNPQRSTUVWXYZabcdefghijkmnopqrstuvwxyz''"

text \<open>
  \<^verbatim>\<open>new(big.Int).SetBytes(input)\<close> reads the bytes as a big-endian unsigned integer, and
  \<^verbatim>\<open>Bytes()\<close> writes the shortest big-endian form (no byte at all for zero). The
  integers of this file are never negative, so they are naturals.
\<close>

definition SetBytes :: "bytes \<Rightarrow> nat" where
  "SetBytes buf = foldl (\<lambda>acc b. acc * 256 + unat b) 0 buf"

function Bytes :: "nat \<Rightarrow> bytes" where
  "Bytes x = (if x = 0 then [] else Bytes (x div 256) @ [of_nat (x mod 256)])"
  by pat_completeness auto
termination
  by (relation "measure (\<lambda>x. x)") auto

declare Bytes.simps [simp del]

text \<open>\<^verbatim>\<open>bytes.IndexByte(s, c)\<close>: the index of the first \<open>c\<close> in \<open>s\<close>, or \<open>-1\<close>.\<close>

fun IndexByte :: "bytes \<Rightarrow> byte \<Rightarrow> int" where
  "IndexByte [] c = -1"
| "IndexByte (b # bs) c =
     (if b = c then 0 else (let i = IndexByte bs c in if i < 0 then -1 else i + 1))"

text \<open>
  \<^verbatim>\<open>ReverseBytes\<close> swaps \<open>data[i]\<close> and \<open>data[j]\<close> while \<open>i < j\<close>, from
  \<open>i = 0\<close> and \<open>j = len(data) - 1\<close> (an \<^verbatim>\<open>int\<close>: \<open>-1\<close> on the empty slice).
\<close>

function reverse_loop :: "nat \<Rightarrow> int \<Rightarrow> bytes \<Rightarrow> bytes" where
  "reverse_loop i j data =
     (if int i < j
      then reverse_loop (i + 1) (j - 1) (data[i := data ! nat j, nat j := data ! i])
      else data)"
  by pat_completeness auto
termination
  by (relation "measure (\<lambda>(i, j, data). nat (j - int i))") auto

declare reverse_loop.simps [simp del]

definition ReverseBytes :: "bytes \<Rightarrow> bytes" where
  "ReverseBytes data = reverse_loop 0 (int (length data) - 1) data"

text \<open>The loop \<^verbatim>\<open>for x.Cmp(zero) != 0 { x.DivMod(x, base, mod); ... }\<close>.\<close>

function encode_digits :: "nat \<Rightarrow> bytes \<Rightarrow> bytes" where
  "encode_digits x result =
     (if x \<noteq> 0 then encode_digits (x div 58) (result @ [b58Alphabet ! (x mod 58)])
      else result)"
  by pat_completeness auto
termination
  by (relation "measure (\<lambda>(x, result). x)") auto

declare encode_digits.simps [simp del]

text \<open>One \<open>'1'\<close> for each leading zero byte of the input; the loop stops at the first other byte.\<close>

fun encode_zeros :: "bytes \<Rightarrow> bytes \<Rightarrow> bytes" where
  "encode_zeros [] result = result"
| "encode_zeros (b # bs) result =
     (if b = 0x00 then encode_zeros bs (result @ [b58Alphabet ! 0]) else result)"

definition Base58Encode :: "bytes \<Rightarrow> bytes" where
  "Base58Encode input =
     (let x = SetBytes input;
          result = encode_digits x [];
          result = encode_zeros input result
      in ReverseBytes result)"

text \<open>
  The first loop of \<^verbatim>\<open>Base58Decode\<close>; \<open>None\<close> is the early \<^verbatim>\<open>return nil\<close> on a
  byte outside the alphabet.
\<close>

fun decode_digits :: "bytes \<Rightarrow> nat \<Rightarrow> nat option" where
  "decode_digits [] result = Some result"
| "decode_digits (b # bs) result =
     (let charIndex = IndexByte b58Alphabet b
      in if charIndex < 0 then None else decode_digits bs (result * 58 + nat charIndex))"

fun count_leadingOnes :: "bytes \<Rightarrow> nat \<Rightarrow> nat" where
  "count_leadingOnes [] leadingOnes = leadingOnes"
| "count_leadingOnes (b # bs) leadingOnes =
     (if b = b58Alphabet ! 0 then count_leadingOnes bs (leadingOnes + 1) else leadingOnes)"

text \<open>
  \<^verbatim>\<open>Base58Decode\<close> returns the nil slice on a bad character and a non-nil slice
  (possibly empty) otherwise.
\<close>

definition Base58Decode :: "bytes \<Rightarrow> bytes option" where
  "Base58Decode input =
     (case decode_digits input 0 of
        None \<Rightarrow> None
      | Some result \<Rightarrow>
          (let decoded = Bytes result;
               leadingOnes = count_leadingOnes input 0
           in Some (replicate leadingOnes 0x00 @ decoded)))"

section \<open>Addresses (wallet/wallet.go)\<close>

definition addressChecksumLen :: nat where
  "addressChecksumLen = 4"

definition checksum :: "bytes \<Rightarrow> bytes" where
  "checksum payload = (let first = sha256 payload; second = sha256 first
                       in take addressChecksumLen second)"

definition ValidateAddress :: "string \<Rightarrow> bool" where
  "ValidateAddress address =
     (case Base58Decode (bytes_of_string address) of
        None \<Rightarrow> False
      | Some decoded \<Rightarrow>
          (if length decoded < 1 + addressChecksumLen then False
           else
             (let payload = take (length decoded - addressChecksumLen) decoded;
                  actualChecksum = drop (length decoded - addressChecksumLen) decoded;
                  expectedChecksum = checksum payload
              in actualChecksum = expectedChecksum)))"

definition PubKeyHashFromAddress :: "string \<Rightarrow> bytes option" where
  "PubKeyHashFromAddress address =
     (case Base58Decode (bytes_of_string address) of
        None \<Rightarrow> None
      | Some decoded \<Rightarrow>
          (if length decoded < 1 + addressChecksumLen then None
           else Some (take (length decoded - addressChecksumLen - 1) (drop 1 decoded))))"

section \<open>Hexadecimal strings (encoding/hex)\<close>

definition hextable :: string where
  "hextable = ''0123456789abcdef''"

definition EncodeToString :: "bytes \<Rightarrow> string" where
  "EncodeToString src =
     concat (map (\<lambda>v. [hextable ! unat (drop_bit 4 v), hextable ! unat (v AND 0x0f)]) src)"

section \<open>Transactions (transaction.go)\<close>

text \<open>
  The field \<^verbatim>\<open>Vout\<close> of a transaction (its outputs) is \<open>TxVout\<close> here, since an input
  has a field \<^verbatim>\<open>Vout\<close> of its own (the index it spends). \<open>ID\<close> is tested against
  \<^verbatim>\<open>nil\<close> by the code, so it is an option; the other slices are read through
  \<^verbatim>\<open>len\<close>, \<^verbatim>\<open>bytes.Equal\<close> and the encoder only, where nil is the empty slice. The
  \<^verbatim>\<open>int\<close> fields are integers: no statement below takes a sum near \<open>2^63\<close>.
\<close>

record TxInput =
  Txid :: bytes
  Vout :: int
  Signature :: bytes
  PubKey :: bytes

record TxOutput =
  Value :: int
  PubKeyHash :: bytes

record Transaction =
  ID :: "bytes option"
  Vin :: "TxInput list"
  TxVout :: "TxOutput list"

record Block =
  Timestamp :: int
  Transactions :: "Transaction list"
  PrevBlockHash :: bytes
  Hash :: bytes
  Nonce :: int
  MerkleRoot :: bytes

text \<open>The keys of crypto/ecdsa; the curve is always P-256.\<close>

record ecdsa_PublicKey =
  X :: int
  Y :: int

record ecdsa_PrivateKey =
  PublicKey :: ecdsa_PublicKey
  D :: int

text \<open>
  What the program calls and this repository does not contain, as parameters:
  the gob codec (\<open>None\<close> is its error), ECDSA over P-256 (\<^verbatim>\<open>SignASN1\<close> reads random
  bytes, its third argument, and \<^verbatim>\<open>elliptic.Unmarshal\<close> answers \<^verbatim>\<open>nil\<close> on bytes that
  are no point), RIPEMD-160, the answer of the key-value engine to a \<^verbatim>\<open>Put\<close> of a key
  and a value (\<open>None\<close>: accepted), the proof-of-work search of the absent
  \<^verbatim>\<open>proofofwork.go\<close> (nonce and hash for a block), and the clock.
\<close>

record env =
  gobEncodeTx :: "Transaction \<Rightarrow> bytes option"
  gobEncodeBlock :: "Block \<Rightarrow> bytes option"
  gobDecodeBlock :: "bytes \<Rightarrow> Block option"
  SignASN1 :: "ecdsa_PrivateKey \<Rightarrow> bytes \<Rightarrow> bytes \<Rightarrow> bytes option"
  VerifyASN1 :: "ecdsa_PublicKey \<Rightarrow> bytes \<Rightarrow> bytes \<Rightarrow> bool"
  Unmarshal :: "bytes \<Rightarrow> (int \<times> int) option"
  ripemd160 :: "bytes \<Rightarrow> bytes"
  bucketPut :: "bytes \<Rightarrow> bytes \<Rightarrow> error option"
  powRun :: "Block \<Rightarrow> int \<times> bytes"
  timeNow :: int

definition HashPubKey :: "env \<Rightarrow> bytes \<Rightarrow> bytes" where
  "HashPubKey L pubKey = (let publicSHA = sha256 pubKey in ripemd160 L publicSHA)"

definition UsesKey :: "env \<Rightarrow> TxInput \<Rightarrow> bytes \<Rightarrow> bool" where
  "UsesKey L in' pubKeyHash = (let lockingHash = HashPubKey L (PubKey in') in lockingHash = pubKeyHash)"

definition IsLockedWithKey :: "TxOutput \<Rightarrow> bytes \<Rightarrow> bool" where
  "IsLockedWithKey out pubKeyHash = (PubKeyHash out = pubKeyHash)"

definition IsCoinbase :: "Transaction \<Rightarrow> bool" where
  "IsCoinbase tx =
     (length (Vin tx) = 1 \<and> length (Txid (Vin tx ! 0)) = 0 \<and> Vout (Vin tx ! 0) = -1)"

definition Transaction_Serialize :: "env \<Rightarrow> Transaction \<Rightarrow> error + bytes" where
  "Transaction_Serialize L tx =
     (case gobEncodeTx L tx of None \<Rightarrow> Inl ErrEncode | Some encoded \<Rightarrow> Inr encoded)"

definition Transaction_Hash :: "env \<Rightarrow> Transaction \<Rightarrow> error + bytes" where
  "Transaction_Hash L tx =
     (let txCopy = tx\<lparr>ID := None\<rparr>
      in bind_err (Transaction_Serialize L txCopy) (\<lambda>encoded. Inr (sha256 encoded)))"

definition TrimmedCopy :: "Transaction \<Rightarrow> Transaction" where
  "TrimmedCopy tx =
     (let inputs = map (\<lambda>vin. \<lparr>Txid = Txid vin, Vout = Vout vin, Signature = [], PubKey = []\<rparr>)
                       (Vin tx);
          outputs = map (\<lambda>vout. \<lparr>Value = Value vout, PubKeyHash = PubKeyHash vout\<rparr>) (TxVout tx)
      in \<lparr>ID = ID tx, Vin = inputs, TxVout = outputs\<rparr>)"

text \<open>
  \<^verbatim>\<open>prevTXs[key]\<close> on a Go map: the zero \<^verbatim>\<open>Transaction\<close> (nil \<open>ID\<close>, no inputs, no
  outputs) when the key is absent.
\<close>

definition zero_Transaction :: Transaction where
  "zero_Transaction = \<lparr>ID = None, Vin = [], TxVout = []\<rparr>"

definition map_index :: "(string \<rightharpoonup> Transaction) \<Rightarrow> string \<Rightarrow> Transaction" where
  "map_index prevTXs key = (case prevTXs key of None \<Rightarrow> zero_Transaction | Some t \<Rightarrow> t)"

text \<open>\<^verbatim>\<open>xs[i]\<close> with an \<^verbatim>\<open>int\<close> index: a runtime panic out of range.\<close>

definition index_at :: "'a list \<Rightarrow> int \<Rightarrow> error + 'a" where
  "index_at xs i = (if 0 \<le> i \<and> i < int (length xs) then Inr (xs ! nat i) else Inl IndexOutOfRange)"

definition set_Signature :: "Transaction \<Rightarrow> nat \<Rightarrow> bytes \<Rightarrow> Transaction" where
  "set_Signature tx inID sig = tx\<lparr>Vin := (Vin tx)[inID := (Vin tx ! inID)\<lparr>Signature := sig\<rparr>]\<rparr>"

definition set_PubKey :: "Transaction \<Rightarrow> nat \<Rightarrow> bytes \<Rightarrow> Transaction" where
  "set_PubKey tx inID key = tx\<lparr>Vin := (Vin tx)[inID := (Vin tx ! inID)\<lparr>PubKey := key\<rparr>]\<rparr>"

text \<open>
  The first loop of \<^verbatim>\<open>Sign\<close> and of \<^verbatim>\<open>Verify\<close>: every input's previous transaction
  must be in the map with a non-nil \<open>ID\<close>.
\<close>

fun check_prevTXs :: "(string \<rightharpoonup> Transaction) \<Rightarrow> TxInput list \<Rightarrow> error option" where
  "check_prevTXs prevTXs [] = None"
| "check_prevTXs prevTXs (vin # rest) =
     (if ID (map_index prevTXs (EncodeToString (Txid vin))) = None
      then Some (Panic ''previous transaction is not correct'')
      else check_prevTXs prevTXs rest)"

text \<open>
  The second loop of \<^verbatim>\<open>Sign\<close>, over the indices of \<^verbatim>\<open>txCopy.Vin\<close>. It carries the
  receiver \<open>tx\<close>, whose signatures it writes, and the local \<open>txCopy\<close>. The result is the
  receiver as the call leaves it, and the panic if the call did not return.
  \<open>rnd inID\<close> are the random bytes the signer reads for input \<open>inID\<close>.
\<close>

fun sign_inputs ::
  "env \<Rightarrow> ecdsa_PrivateKey \<Rightarrow> (string \<rightharpoonup> Transaction) \<Rightarrow> (nat \<Rightarrow> bytes) \<Rightarrow> nat list
    \<Rightarrow> Transaction \<Rightarrow> Transaction \<Rightarrow> Transaction \<times> error option" where
  "sign_inputs L privKey prevTXs rnd [] tx txCopy = (tx, None)"
| "sign_inputs L privKey prevTXs rnd (inID # rest) tx txCopy =
     (let vin = Vin txCopy ! inID;
          prevTx = map_index prevTXs (EncodeToString (Txid vin));
          txCopy = set_Signature txCopy inID []
      in case index_at (TxVout prevTx) (Vout vin) of
           Inl e \<Rightarrow> (tx, Some e)
         | Inr out \<Rightarrow>
            (let txCopy = set_PubKey txCopy inID (PubKeyHash out)
             in case Transaction_Hash L txCopy of
                  Inl e \<Rightarrow> (tx, Some e)
                | Inr h \<Rightarrow>
                   (let txCopy = txCopy\<lparr>ID := Some h\<rparr>;
                        txCopy = set_PubKey txCopy inID []
                    in case SignASN1 L privKey h (rnd inID) of
                         None \<Rightarrow> (tx, Some ErrSign)
                       | Some sig \<Rightarrow>
                           sign_inputs L privKey prevTXs rnd rest
                             (set_Signature tx inID sig) txCopy)))"

definition Sign ::
  "env \<Rightarrow> Transaction \<Rightarrow> ecdsa_PrivateKey \<Rightarrow> (string \<rightharpoonup> Transaction) \<Rightarrow> (nat \<Rightarrow> bytes)
    \<Rightarrow> Transaction \<times> error option" where
  "Sign L tx privKey prevTXs rnd =
     (if IsCoinbase tx then (tx, None)
      else (case check_prevTXs prevTXs (Vin tx) of
              Some e \<Rightarrow> (tx, Some e)
            | None \<Rightarrow>
               (let txCopy = TrimmedCopy tx
                in sign_inputs L privKey prevTXs rnd [0..<length (Vin txCopy)] tx txCopy)))"

text \<open>The second loop of \<^verbatim>\<open>Verify\<close>, over the indices of \<^verbatim>\<open>tx.Vin\<close>.\<close>

fun verify_inputs ::
  "env \<Rightarrow> (string \<rightharpoonup> Transaction) \<Rightarrow> Transaction \<Rightarrow> nat list \<Rightarrow> Transaction \<Rightarrow> error + bool" where
  "verify_inputs L prevTXs tx [] txCopy = Inr True"
| "verify_inputs L prevTXs tx (inID # rest) txCopy =
     (let vin = Vin tx ! inID;
          prevTx = map_index prevTXs (EncodeToString (Txid vin));
          txCopy = set_Signature txCopy inID []
      in case index_at (TxVout prevTx) (Vout vin) of
           Inl e \<Rightarrow> Inl e
         | Inr out \<Rightarrow>
            (let txCopy = set_PubKey txCopy inID (PubKeyHash out)
             in case Transaction_Hash L txCopy of
                  Inl e \<Rightarrow> Inl e
                | Inr h \<Rightarrow>
                   (let txCopy = txCopy\<lparr>ID := Some h\<rparr>;
                        txCopy = set_PubKey txCopy inID []
                    in case Unmarshal L (PubKey vin) of
                         None \<Rightarrow> Inr False
                       | Some (x, y) \<Rightarrow>
                           (let pubKey = \<lparr>X = x, Y = y\<rparr>
                            in if \<not> VerifyASN1 L pubKey h (Signature vin) then Inr False
                               else verify_inputs L prevTXs tx rest txCopy))))"

definition Verify :: "env \<Rightarrow> Transaction \<Rightarrow> (string \<rightharpoonup> Transaction) \<Rightarrow> error + bool" where
  "Verify L tx prevTXs =
     (if IsCoinbase tx then Inr True
      else (case check_prevTXs prevTXs (Vin tx) of
              Some e \<Rightarrow> Inl e
            | None \<Rightarrow>
               (let txCopy = TrimmedCopy tx
                in verify_inputs L prevTXs tx [0..<length (Vin tx)] txCopy)))"

section \<open>Blocks (block.go)\<close>

text \<open>The bytes of a slice that may be nil: \<^verbatim>\<open>len\<close>, \<^verbatim>\<open>bytes.Equal\<close> and the encoders read nil as empty.\<close>

definition slice_bytes :: "bytes option \<Rightarrow> bytes" where
  "slice_bytes s = (case s of None \<Rightarrow> [] | Some b \<Rightarrow> b)"

definition Block_Serialize :: "env \<Rightarrow> Block \<Rightarrow> error + bytes" where
  "Block_Serialize L b =
     (case gobEncodeBlock L b of None \<Rightarrow> Inl ErrEncode | Some encoded \<Rightarrow> Inr encoded)"

definition DeserializeBlock :: "env \<Rightarrow> bytes \<Rightarrow> error + Block" where
  "DeserializeBlock L data =
     (case gobDecodeBlock L data of None \<Rightarrow> Inl ErrDecode | Some block \<Rightarrow> Inr block)"

definition HashTransactions :: "Block \<Rightarrow> error + bytes" where
  "HashTransactions b =
     (let txHashes = map (\<lambda>tx. slice_bytes (ID tx)) (Transactions b)
      in bind_err (NewMerkleTree txHashes) (\<lambda>tree. Inr (Data (RootNode tree))))"

definition NewBlock :: "env \<Rightarrow> Transaction list \<Rightarrow> bytes \<Rightarrow> error + Block" where
  "NewBlock L transactions prevBlockHash =
     (let block = \<lparr>Timestamp = timeNow L, Transactions = transactions,
                   PrevBlockHash = prevBlockHash, Hash = [], Nonce = 0, MerkleRoot = []\<rparr>
      in bind_err (HashTransactions block) (\<lambda>root.
           (let block = block\<lparr>MerkleRoot := root\<rparr>;
                (nonce, hash) = powRun L block
            in Inr (block\<lparr>Nonce := nonce, Hash := hash\<rparr>))))"

definition NewGenesisBlock :: "env \<Rightarrow> Transaction \<Rightarrow> error + Block" where
  "NewGenesisBlock L coinbase =
     (let genesis = \<lparr>Timestamp = 0, Transactions = [coinbase],
                     PrevBlockHash = [], Hash = [], Nonce = 0, MerkleRoot = []\<rparr>
      in bind_err (HashTransactions genesis) (\<lambda>root.
           (let genesis = genesis\<lparr>MerkleRoot := root\<rparr>;
                (nonce, hash) = powRun L genesis
            in Inr (genesis\<lparr>Nonce := nonce, Hash := hash\<rparr>))))"

definition subsidy :: int where
  "subsidy = 10"

definition NewTxOutput :: "int \<Rightarrow> string \<Rightarrow> error + TxOutput" where
  "NewTxOutput value address =
     (case PubKeyHashFromAddress address of
        None \<Rightarrow> Inl (Panic ''invalid address'')
      | Some pubKeyHash \<Rightarrow> Inr \<lparr>Value = value, PubKeyHash = pubKeyHash\<rparr>)"

definition CoinbaseTx :: "env \<Rightarrow> string \<Rightarrow> string \<Rightarrow> error + Transaction" where
  "CoinbaseTx L to data =
     (let data = (if data = [] then ''Coinbase to '' @ to else data);
          txin = \<lparr>Txid = [], Vout = -1, Signature = [], PubKey = bytes_of_string data\<rparr>
      in bind_err (NewTxOutput subsidy to) (\<lambda>txout.
           (let tx = \<lparr>ID = None, Vin = [txin], TxVout = [txout]\<rparr>
            in bind_err (Transaction_Hash L tx) (\<lambda>h. Inr (tx\<lparr>ID := Some h\<rparr>)))))"

section \<open>The chain store (blockchain.go, blockchain_helpers.go, iterator.go)\<close>

text \<open>
  The database holds one bucket, a map from keys to values (\<open>None\<close> while the bucket
  has not been created). Block hashes and the key \<^verbatim>\<open>"l"\<close> of the tip live in the same
  bucket. The handle pairs the database with the \<open>tip\<close> field, a slice read through
  \<^verbatim>\<open>len\<close> and \<^verbatim>\<open>bytes.Equal\<close> only, so nil is the empty list. A failed
  \<^verbatim>\<open>db.Update\<close> rolls back and the caller panics: the result \<open>Inl\<close> stands for a panic
  that leaves the handle and the database as they were.
\<close>

type_synonym bucket = "bytes \<rightharpoonup> bytes"

record Blockchain =
  db :: "bucket option"
  tip :: bytes

definition lastHashKey :: bytes where
  "lastHashKey = bytes_of_string ''l''"

definition bucket_Put :: "env \<Rightarrow> bucket \<Rightarrow> bytes \<Rightarrow> bytes \<Rightarrow> error + bucket" where
  "bucket_Put L b key value =
     (case bucketPut L key value of Some e \<Rightarrow> Inl e | None \<Rightarrow> Inr (b(key \<mapsto> value)))"

text \<open>
  \<^verbatim>\<open>PutBlock\<close>: decode the bytes; make the bucket if it is missing (which cannot fail
  for the fixed name \<^verbatim>\<open>"blocks"\<close>); store the bytes under the block's hash unless
  \<^verbatim>\<open>Get\<close> finds an entry; read the tip entry of the bucket as it now is.
\<close>

definition PutBlock :: "env \<Rightarrow> bytes \<Rightarrow> Blockchain \<Rightarrow> error + Blockchain" where
  "PutBlock L blockData bc =
     bind_err (DeserializeBlock L blockData) (\<lambda>block.
       (let b = (case db bc of None \<Rightarrow> Map.empty | Some b \<Rightarrow> b)
        in bind_err (if b (Hash block) = None then bucket_Put L b (Hash block) blockData
                     else Inr b) (\<lambda>b.
             (case b lastHashKey of
                None \<Rightarrow>
                  bind_err (bucket_Put L b lastHashKey (Hash block)) (\<lambda>b.
                    Inr \<lparr>db = Some b, tip = Hash block\<rparr>)
              | Some currentTip \<Rightarrow>
                  if length currentTip = 0 then
                    bind_err (bucket_Put L b lastHashKey (Hash block)) (\<lambda>b.
                      Inr \<lparr>db = Some b, tip = Hash block\<rparr>)
                  else if PrevBlockHash block = currentTip then
                    bind_err (bucket_Put L b lastHashKey (Hash block)) (\<lambda>b.
                      Inr \<lparr>db = Some b, tip = Hash block\<rparr>)
                  else Inr \<lparr>db = Some b, tip = tip bc\<rparr>))))"

text \<open>
  \<^verbatim>\<open>CreateBlockchainForNode\<close>; \<open>exists\<close> is \<^verbatim>\<open>dbExists(nodeID)\<close>. The database file is
  new, so \<^verbatim>\<open>CreateBucket\<close> gives an empty bucket. Opening the file is taken to
  succeed: the wait for the file lock is not modelled, here and in
  \<^verbatim>\<open>InitBlockchainForNode\<close>.
\<close>

definition CreateBlockchainForNode :: "env \<Rightarrow> string \<Rightarrow> bool \<Rightarrow> error + Blockchain" where
  "CreateBlockchainForNode L address exists =
     (if \<not> ValidateAddress address then Inl (Panic ''invalid address'')
      else if exists then Inl (Panic ''blockchain database already exists'')
      else
        bind_err (CoinbaseTx L address ''Genesis'') (\<lambda>coinbase.
        bind_err (NewGenesisBlock L coinbase) (\<lambda>genesis.
        bind_err (Block_Serialize L genesis) (\<lambda>encoded.
        bind_err (bucket_Put L Map.empty (Hash genesis) encoded) (\<lambda>b.
        bind_err (bucket_Put L b lastHashKey (Hash genesis)) (\<lambda>b.
          Inr \<lparr>db = Some b, tip = Hash genesis\<rparr>))))))"

text \<open>
  \<^verbatim>\<open>InitBlockchainForNode\<close> opens the file, or makes it; \<open>file\<close> is the bucket of the
  file it finds (\<open>None\<close>: no file, or a file without the bucket).
\<close>

definition InitBlockchainForNode :: "bucket option \<Rightarrow> error + Blockchain" where
  "InitBlockchainForNode file =
     (let b = (case file of None \<Rightarrow> Map.empty | Some b \<Rightarrow> b);
          tip = slice_bytes (b lastHashKey)
      in Inr \<lparr>db = Some b, tip = tip\<rparr>)"

text \<open>
  \<^verbatim>\<open>it.Next()\<close>, from the iterator's \<open>currentHash\<close>: the block (\<open>None\<close> is the nil the
  code returns at an empty hash or an unknown one) and the next \<open>currentHash\<close>. Reading
  a bucket that does not exist dereferences nil.
\<close>

definition Iterator_Next :: "env \<Rightarrow> Blockchain \<Rightarrow> bytes \<Rightarrow> error + (Block option \<times> bytes)" where
  "Iterator_Next L bc currentHash =
     (if length currentHash = 0 then Inr (None, currentHash)
      else (case db bc of
              None \<Rightarrow> Inl NilDereference
            | Some b \<Rightarrow>
               (case b currentHash of
                  None \<Rightarrow> Inr (None, currentHash)
                | Some encoded \<Rightarrow>
                    bind_err (DeserializeBlock L encoded) (\<lambda>block.
                      Inr (Some block, PrevBlockHash block)))))"

text \<open>
  \<^verbatim>\<open>FindTransaction\<close> walks from the tip. The walk need not end (a stored block may
  name itself as its predecessor), so the loop is a partial function: \<open>None\<close> is a walk
  that never returns. \<open>Inr None\<close> is the returned error "transaction not found". The
  loop reads \<^verbatim>\<open>block.Transactions\<close> without testing \<open>block\<close> against nil.
\<close>

partial_function (option) FindTransaction_loop ::
  "env \<Rightarrow> Blockchain \<Rightarrow> bytes \<Rightarrow> bytes \<Rightarrow> (error + Transaction option) option" where
  "FindTransaction_loop L bc ID' currentHash =
     (case Iterator_Next L bc currentHash of
        Inl e \<Rightarrow> Some (Inl e)
      | Inr (None, _) \<Rightarrow> Some (Inl NilDereference)
      | Inr (Some block, currentHash') \<Rightarrow>
          (case find (\<lambda>tx. slice_bytes (ID tx) = ID') (Transactions block) of
             Some tx \<Rightarrow> Some (Inr (Some tx))
           | None \<Rightarrow>
               if length (PrevBlockHash block) = 0 then Some (Inr None)
               else FindTransaction_loop L bc ID' currentHash'))"

definition FindTransaction ::
  "env \<Rightarrow> Blockchain \<Rightarrow> bytes \<Rightarrow> (error + Transaction option) option" where
  "FindTransaction L bc ID' = FindTransaction_loop L bc ID' (tip bc)"

text \<open>
  The loop of \<^verbatim>\<open>SignTransaction\<close> and \<^verbatim>\<open>VerifyTransaction\<close> that fills \<open>prevTXs\<close>;
  a transaction that is not found is a panic with the error's text.
\<close>

fun collect_prevTXs ::
  "env \<Rightarrow> Blockchain \<Rightarrow> TxInput list \<Rightarrow> (string \<rightharpoonup> Transaction)
    \<Rightarrow> (error + (string \<rightharpoonup> Transaction)) option" where
  "collect_prevTXs L bc [] prevTXs = Some (Inr prevTXs)"
| "collect_prevTXs L bc (vin # rest) prevTXs =
     (case FindTransaction L bc (Txid vin) of
        None \<Rightarrow> None
      | Some (Inl e) \<Rightarrow> Some (Inl e)
      | Some (Inr None) \<Rightarrow> Some (Inl (Panic ''transaction not found''))
      | Some (Inr (Some prevTx)) \<Rightarrow>
          collect_prevTXs L bc rest (prevTXs(EncodeToString (slice_bytes (ID prevTx)) \<mapsto> prevTx)))"

definition SignTransaction ::
  "env \<Rightarrow> Blockchain \<Rightarrow> Transaction \<Rightarrow> ecdsa_PrivateKey \<Rightarrow> (nat \<Rightarrow> bytes)
    \<Rightarrow> (Transaction \<times> error option) option" where
  "SignTransaction L bc tx privKey rnd =
     (case collect_prevTXs L bc (Vin tx) Map.empty of
        None \<Rightarrow> None
      | Some (Inl e) \<Rightarrow> Some (tx, Some e)
      | Some (Inr prevTXs) \<Rightarrow> Some (Sign L tx privKey prevTXs rnd))"

definition VerifyTransaction :: "env \<Rightarrow> Blockchain \<Rightarrow> Transaction \<Rightarrow> (error + bool) option" where
  "VerifyTransaction L bc tx =
     (if IsCoinbase tx then Some (Inr True)
      else (case collect_prevTXs L bc (Vin tx) Map.empty of
              None \<Rightarrow> None
            | Some (Inl e) \<Rightarrow> Some (Inl e)
            | Some (Inr prevTXs) \<Rightarrow> Some (Verify L tx prevTXs)))"

text \<open>The first loop of \<^verbatim>\<open>AddBlock\<close>: every transaction must verify.\<close>

fun verify_all :: "env \<Rightarrow> Blockchain \<Rightarrow> Transaction list \<Rightarrow> (error + unit) option" where
  "verify_all L bc [] = Some (Inr ())"
| "verify_all L bc (tx # rest) =
     (case VerifyTransaction L bc tx of
        None \<Rightarrow> None
      | Some (Inl e) \<Rightarrow> Some (Inl e)
      | Some (Inr ok) \<Rightarrow>
          if \<not> ok then Some (Inl (Panic ''invalid transaction'')) else verify_all L bc rest)"

text \<open>
  \<^verbatim>\<open>AddBlock\<close>: the new handle and the hash it returns. The read of the tip
  dereferences the bucket without a nil test.
\<close>

definition AddBlock ::
  "env \<Rightarrow> Transaction list \<Rightarrow> Blockchain \<Rightarrow> (error + Blockchain \<times> bytes) option" where
  "AddBlock L transactions bc =
     (case verify_all L bc transactions of
        None \<Rightarrow> None
      | Some (Inl e) \<Rightarrow> Some (Inl e)
      | Some (Inr _) \<Rightarrow>
          Some (case db bc of
                  None \<Rightarrow> Inl NilDereference
                | Some b \<Rightarrow>
                    (let lastHash = slice_bytes (b lastHashKey)
                     in bind_err (NewBlock L transactions lastHash) (\<lambda>newBlock.
                        bind_err (Block_Serialize L newBlock) (\<lambda>encoded.
                        bind_err (bucket_Put L b (Hash newBlock) encoded) (\<lambda>b.
                        bind_err (bucket_Put L b lastHashKey (Hash newBlock)) (\<lambda>b.
                          Inr (\<lparr>db = Some b, tip = Hash newBlock\<rparr>, Hash newBlock))))))))"

section \<open>Unspent outputs (utxo.go)\<close>

text \<open>
  The loop labelled \<^verbatim>\<open>Outputs\<close>: an output whose index is recorded as spent is
  skipped; for every other output locked with the key, the whole transaction is
  appended to \<open>unspentTXs\<close>. \<open>spent\<close> is \<^verbatim>\<open>spentTXOs[txID]\<close> (\<open>None\<close>: nil).
\<close>

fun scan_outputs ::
  "bytes \<Rightarrow> Transaction \<Rightarrow> int list option \<Rightarrow> int \<Rightarrow> TxOutput list \<Rightarrow> Transaction list
    \<Rightarrow> Transaction list" where
  "scan_outputs pubKeyHash tx spent outIdx [] unspentTXs = unspentTXs"
| "scan_outputs pubKeyHash tx spent outIdx (out # rest) unspentTXs =
     (if (case spent of None \<Rightarrow> False | Some spentOuts \<Rightarrow> outIdx \<in> set spentOuts)
      then scan_outputs pubKeyHash tx spent (outIdx + 1) rest unspentTXs
      else if IsLockedWithKey out pubKeyHash
      then scan_outputs pubKeyHash tx spent (outIdx + 1) rest (unspentTXs @ [tx])
      else scan_outputs pubKeyHash tx spent (outIdx + 1) rest unspentTXs)"

text \<open>The loop over the inputs of a transaction that is no coinbase.\<close>

fun record_spent ::
  "env \<Rightarrow> bytes \<Rightarrow> TxInput list \<Rightarrow> (string \<rightharpoonup> int list) \<Rightarrow> (string \<rightharpoonup> int list)" where
  "record_spent L pubKeyHash [] spentTXOs = spentTXOs"
| "record_spent L pubKeyHash (in' # rest) spentTXOs =
     (if UsesKey L in' pubKeyHash
      then (let inTxID = EncodeToString (Txid in')
            in record_spent L pubKeyHash rest
                 (spentTXOs(inTxID \<mapsto> (case spentTXOs inTxID of None \<Rightarrow> [] | Some s \<Rightarrow> s) @ [Vout in'])))
      else record_spent L pubKeyHash rest spentTXOs)"

text \<open>The loop over the transactions of one block.\<close>

fun scan_block ::
  "env \<Rightarrow> bytes \<Rightarrow> Transaction list \<Rightarrow> Transaction list \<Rightarrow> (string \<rightharpoonup> int list)
    \<Rightarrow> Transaction list \<times> (string \<rightharpoonup> int list)" where
  "scan_block L pubKeyHash [] unspentTXs spentTXOs = (unspentTXs, spentTXOs)"
| "scan_block L pubKeyHash (tx # rest) unspentTXs spentTXOs =
     (let txID = EncodeToString (slice_bytes (ID tx));
          unspentTXs = scan_outputs pubKeyHash tx (spentTXOs txID) 0 (TxVout tx) unspentTXs;
          spentTXOs = (if \<not> IsCoinbase tx then record_spent L pubKeyHash (Vin tx) spentTXOs
                       else spentTXOs)
      in scan_block L pubKeyHash rest unspentTXs spentTXOs)"

partial_function (option) FindUnspentTransactions_loop ::
  "env \<Rightarrow> Blockchain \<Rightarrow> bytes \<Rightarrow> bytes \<Rightarrow> Transaction list \<Rightarrow> (string \<rightharpoonup> int list)
    \<Rightarrow> (error + Transaction list) option" where
  "FindUnspentTransactions_loop L bc pubKeyHash currentHash unspentTXs spentTXOs =
     (case Iterator_Next L bc currentHash of
        Inl e \<Rightarrow> Some (Inl e)
      | Inr (None, _) \<Rightarrow> Some (Inl NilDereference)
      | Inr (Some block, currentHash') \<Rightarrow>
          (case scan_block L pubKeyHash (Transactions block) unspentTXs spentTXOs of
             (unspentTXs', spentTXOs') \<Rightarrow>
               if length (PrevBlockHash block) = 0 then Some (Inr unspentTXs')
               else FindUnspentTransactions_loop L bc pubKeyHash currentHash' unspentTXs' spentTXOs'))"

definition FindUnspentTransactions ::
  "env \<Rightarrow> Blockchain \<Rightarrow> bytes \<Rightarrow> (error + Transaction list) option" where
  "FindUnspentTransactions L bc pubKeyHash =
     FindUnspentTransactions_loop L bc pubKeyHash (tip bc) [] Map.empty"

definition FindUTXO :: "env \<Rightarrow> Blockchain \<Rightarrow> bytes \<Rightarrow> (error + TxOutput list) option" where
  "FindUTXO L bc pubKeyHash =
     (case FindUnspentTransactions L bc pubKeyHash of
        None \<Rightarrow> None
      | Some (Inl e) \<Rightarrow> Some (Inl e)
      | Some (Inr unspentTxs) \<Rightarrow>
          Some (Inr (concat (map (\<lambda>tx. filter (\<lambda>out. IsLockedWithKey out pubKeyHash) (TxVout tx))
                                 unspentTxs))))"

text \<open>The balance that \<^verbatim>\<open>handleGetBalance\<close> and the command line add up.\<close>

definition balance_of :: "env \<Rightarrow> Blockchain \<Rightarrow> bytes \<Rightarrow> (error + int) option" where
  "balance_of L bc pubKeyHash =
     (case FindUTXO L bc pubKeyHash of
        None \<Rightarrow> None
      | Some (Inl e) \<Rightarrow> Some (Inl e)
      | Some (Inr UTXOs) \<Rightarrow> Some (Inr (foldl (\<lambda>balance out. balance + Value out) 0 UTXOs)))"

section \<open>Notions used in the statements and proofs\<close>

text \<open>The base-58 digits of a number, least significant first: what the encoder's loop emits.\<close>

function digits58 :: "nat \<Rightarrow> nat list" where
  "digits58 x = (if x = 0 then [] else x mod 58 # digits58 (x div 58))"
  by pat_completeness auto
termination
  by (relation "measure (\<lambda>x. x)") auto

declare digits58.simps [simp del]

text \<open>
  The digest that both loops of signing and verifying compute for input \<open>i\<close> of a
  trimmed copy \<open>tc\<close>; a trimmed list of inputs has no signature and no key left.
\<close>

definition input_digest :: "env \<Rightarrow> (string \<rightharpoonup> Transaction) \<Rightarrow> Transaction \<Rightarrow> nat \<Rightarrow> error + bytes" where
  "input_digest L prevTXs tc i =
     (let vin = Vin tc ! i;
          prevTx = map_index prevTXs (EncodeToString (Txid vin))
      in Transaction_Hash L
           (set_PubKey (set_Signature tc i []) i (PubKeyHash (TxVout prevTx ! nat (Vout vin)))))"

definition trimmed :: "TxInput list \<Rightarrow> bool" where
  "trimmed vins = list_all (\<lambda>v. Signature v = [] \<and> PubKey v = []) vins"

text \<open>
  The \<open>tip\<close> field of the handle and the value under \<^verbatim>\<open>lastHashKey\<close> are the same byte
  string (the empty one when there is no entry).
\<close>

definition tip_in_sync :: "Blockchain \<Rightarrow> bool" where
  "tip_in_sync bc =
     (tip bc = slice_bytes (case db bc of None \<Rightarrow> None | Some b \<Rightarrow> b lastHashKey))"

section \<open>A concrete environment\<close>

text \<open>
  Stand-ins for the libraries, to run the definitions on concrete inputs: a byte-wise
  encoder, a signer whose signature is the digest followed by the two coordinates of
  the public key, points of two bytes, and the acceptance rule of bbolt's
  \<^verbatim>\<open>Bucket.Put\<close> (a key of 1 to 32768 bytes, a value of at most \<open>2^31 - 2\<close> bytes).
  The block decoder is a table.
\<close>

definition demo_encodeTx :: "Transaction \<Rightarrow> bytes" where
  "demo_encodeTx tx =
     concat (map (\<lambda>vin. Txid vin @ [of_int (Vout vin)] @ Signature vin @ PubKey vin) (Vin tx))
     @ concat (map (\<lambda>out. of_int (Value out) # PubKeyHash out) (TxVout tx))"

definition demo_sign :: "ecdsa_PrivateKey \<Rightarrow> bytes \<Rightarrow> bytes" where
  "demo_sign privKey h = h @ [of_int (X (PublicKey privKey)), of_int (Y (PublicKey privKey))]"

definition demo_verify :: "ecdsa_PublicKey \<Rightarrow> bytes \<Rightarrow> bytes \<Rightarrow> bool" where
  "demo_verify pub h sig = (sig = h @ [of_int (X pub), of_int (Y pub)])"

definition demo_Unmarshal :: "bytes \<Rightarrow> (int \<times> int) option" where
  "demo_Unmarshal data = (case data of [x, y] \<Rightarrow> Some (uint x, uint y) | _ \<Rightarrow> None)"

definition bbolt_Put :: "bytes \<Rightarrow> bytes \<Rightarrow> error option" where
  "bbolt_Put key value =
     (if length key = 0 then Some ErrKeyRequired
      else if length key > 32768 then Some ErrKeyTooLarge
      else if length value > 2147483646 then Some ErrValueTooLarge
      else None)"

definition demo_env :: "(bytes \<times> Block) list \<Rightarrow> env" where
  "demo_env table =
     \<lparr>gobEncodeTx = (\<lambda>tx. Some (demo_encodeTx tx)),
      gobEncodeBlock = (\<lambda>b. map_of (map (\<lambda>(d, b'). (b', d)) table) b),
      gobDecodeBlock = map_of table,
      SignASN1 = (\<lambda>privKey h r. Some (demo_sign privKey h)),
      VerifyASN1 = demo_verify,
      Unmarshal = demo_Unmarshal,
      ripemd160 = take 20,
      bucketPut = bbolt_Put,
      powRun = (\<lambda>b. (0, sha256 (PrevBlockHash b @ MerkleRoot b))),
      timeNow = 0\<rparr>"

definition demo_key :: ecdsa_PrivateKey where
  "demo_key = \<lparr>PublicKey = \<lparr>X = 4, Y = 5\<rparr>, D = 7\<rparr>"

definition demo_prevTx :: Transaction where
  "demo_prevTx =
     \<lparr>ID = Some [1],
      Vin = [\<lparr>Txid = [], Vout = -1, Signature = [], PubKey = [71]\<rparr>],
      TxVout = [\<lparr>Value = 10, PubKeyHash = [9]\<rparr>]\<rparr>"

definition demo_spend :: Transaction where
  "demo_spend =
     \<lparr>ID = Some [2],
      Vin = [\<lparr>Txid = [1], Vout = 0, Signature = [], PubKey = [4, 5]\<rparr>],
      TxVout = [\<lparr>Value = 3, PubKeyHash = [8]\<rparr>, \<lparr>Value = 7, PubKeyHash = [9]\<rparr>]\<rparr>"

definition demo_block :: "bytes \<Rightarrow> bytes \<Rightarrow> Transaction list \<Rightarrow> Block" where
  "demo_block h prev txs =
     \<lparr>Timestamp = 0, Transactions = txs, PrevBlockHash = prev, Hash = h, Nonce = 0, MerkleRoot = []\<rparr>"

text \<open>
  A chain of two blocks, as \<^verbatim>\<open>createblockchain -address A\<close> followed by
  \<^verbatim>\<open>send -from A -to A -amount 3\<close> leaves it: the genesis coinbase pays 10 to A; the
  second block holds the sender's coinbase (10 to A) and the payment, which spends the
  genesis output and pays 3 to A and the change of 7 to A. A's public key is \<open>[4, 5]\<close>.
\<close>

definition demo_pkh :: bytes where
  "demo_pkh = take 20 (sha256 [4, 5])"

definition demo_coinbase :: "bytes \<Rightarrow> Transaction" where
  "demo_coinbase txid =
     \<lparr>ID = Some txid,
      Vin = [\<lparr>Txid = [], Vout = -1, Signature = [], PubKey = [71]\<rparr>],
      TxVout = [\<lparr>Value = 10, PubKeyHash = demo_pkh\<rparr>]\<rparr>"

definition demo_self_payment :: Transaction where
  "demo_self_payment =
     \<lparr>ID = Some [3],
      Vin = [\<lparr>Txid = [1], Vout = 0, Signature = [9], PubKey = [4, 5]\<rparr>],
      TxVout = [\<lparr>Value = 3, PubKeyHash = demo_pkh\<rparr>, \<lparr>Value = 7, PubKeyHash = demo_pkh\<rparr>]\<rparr>"

definition demo_block1 :: Block where
  "demo_block1 = demo_block [17] [] [demo_coinbase [1]]"

definition demo_block2 :: Block where
  "demo_block2 = demo_block [18] [17] [demo_coinbase [2], demo_self_payment]"

definition demo_chain_env :: env where
  "demo_chain_env = demo_env [([101], demo_block1), ([102], demo_block2)]"

definition demo_chain :: Blockchain where
  "demo_chain =
     \<lparr>db = Some [[17] \<mapsto> [101], [18] \<mapsto> [102], lastHashKey \<mapsto> [18]], tip = [18]\<rparr>"

section \<open>The balance the specification asks for\<close>

text \<open>
  Following the words of the specification, for comparison with the code: the outputs
  of the chain (its transactions in the order they were added) locked with the key and
  not referenced by an input of a later transaction, each counted once, and the sum of
  their values.
\<close>

definition spec_referenced :: "Transaction \<Rightarrow> int \<Rightarrow> Transaction list \<Rightarrow> bool" where
  "spec_referenced tx outIdx later =
     list_ex (\<lambda>t. list_ex (\<lambda>vin. Txid vin = slice_bytes (ID tx) \<and> Vout vin = outIdx) (Vin t)) later"

fun spec_unspent :: "bytes \<Rightarrow> Transaction list \<Rightarrow> TxOutput list" where
  "spec_unspent pubKeyHash [] = []"
| "spec_unspent pubKeyHash (tx # later) =
     map snd (filter (\<lambda>(outIdx, out). IsLockedWithKey out pubKeyHash
                                      \<and> \<not> spec_referenced tx (int outIdx) later)
                (enumerate 0 (TxVout tx)))
     @ spec_unspent pubKeyHash later"

definition spec_balance :: "bytes \<Rightarrow> Transaction list \<Rightarrow> int" where
  "spec_balance pubKeyHash txs = sum_list (map Value (spec_unspent pubKeyHash txs))"

section \<open>Known digests\<close>

lemma sha256_empty:
  "sha256 [] = [227, 176, 196, 66, 152, 252, 28, 20, 154, 251, 244, 200, 153, 111, 185, 36, 39, 174, 65, 228, 100, 155, 147, 76, 164, 149, 153, 27, 120, 82, 184, 85]"
  by code_simp

lemma sha256_sha256_empty:
  "sha256 [227, 176, 196, 66, 152, 252, 28, 20, 154, 251, 244, 200, 153, 111, 185, 36, 39, 174, 65, 228, 100, 155, 147, 76, 164, 149, 153, 27, 120, 82, 184, 85] = [93, 246, 224, 226, 118, 19, 89, 211, 10, 130, 117, 5, 142, 41, 159, 204, 3, 129, 83, 69, 69, 245, 92, 244, 62, 65, 152, 63, 93, 76, 148, 86]"
  by code_simp

section \<open>Merkle tree of no transactions\<close>

lemma NewMerkleTree_Nil:
  "NewMerkleTree [] = Inr \<lparr>RootNode = MerkleNode None None (sha256 (sha256 []))\<rparr>"
  by (simp add: NewMerkleTree_def NewMerkleNode_def bind_err_def)

text \<open>
  C3 (as the code has it). \<^verbatim>\<open>NewMerkleTree\<close> on the empty list returns a childless root
  whose \<open>Data\<close> is the SHA-256 digest of the 32-byte digest of the empty string: the
  code first hashes the empty string and then hands that digest to \<^verbatim>\<open>NewMerkleNode\<close>
  as leaf data, which hashes it once more.
\<close>

theorem NewMerkleTree_empty_root:
  "NewMerkleTree [] = Inr \<lparr>RootNode = MerkleNode None None (sha256 (sha256 []))\<rparr>"
  by (rule NewMerkleTree_Nil)

text \<open>
  C3 as stated fails: the root of the empty tree is not the digest of the empty string.
\<close>

theorem NewMerkleTree_empty_not_single_hash:
  "\<not> (\<exists>t. NewMerkleTree [] = Inr t \<and> Data (RootNode t) = sha256 [])"
proof -
  have "sha256 (sha256 []) \<noteq> sha256 []"
    unfolding sha256_empty sha256_sha256_empty by simp
  then show ?thesis
    by (simp add: NewMerkleTree_Nil)
qed

section \<open>Base58 round trip\<close>

subsection \<open>The swap loop reverses\<close>

lemma reverse_loop_length: "length (reverse_loop i j data) = length data"
proof (induction i j data rule: reverse_loop.induct)
  case (1 i j data)
  then show ?case
    by (subst reverse_loop.simps) auto
qed

lemma reverse_loop_nth:
  "j < int (length data) \<Longrightarrow> k < length data \<Longrightarrow>
   reverse_loop i j data ! k =
     (if int i \<le> int k \<and> int k \<le> j then data ! nat (int i + j - int k) else data ! k)"
proof (induction i j data rule: reverse_loop.induct)
  case (1 i j data)
  show ?case
  proof (cases "int i < j")
    case False
    then have "reverse_loop i j data = data"
      by (subst reverse_loop.simps) simp
    moreover from False have "int i \<le> int k \<and> int k \<le> j \<Longrightarrow> nat (int i + j - int k) = k"
      by linarith
    ultimately show ?thesis by auto
  next
    case True
    let ?d = "data[i := data ! nat j, nat j := data ! i]"
    have step: "reverse_loop i j data = reverse_loop (i + 1) (j - 1) ?d"
      using True by (subst reverse_loop.simps) simp
    have ih: "reverse_loop (i + 1) (j - 1) ?d ! k =
       (if int (i + 1) \<le> int k \<and> int k \<le> j - 1 then ?d ! nat (int (i + 1) + (j - 1) - int k) else ?d ! k)"
      using "1.IH"[OF True] "1.prems" by simp
    show ?thesis
      unfolding step ih using True "1.prems"
      by (auto simp: nth_list_update nat_eq_iff)
  qed
qed

lemma ReverseBytes_rev: "ReverseBytes data = rev data"
proof (rule nth_equalityI)
  show "length (ReverseBytes data) = length (rev data)"
    by (simp add: ReverseBytes_def reverse_loop_length)
next
  fix k assume "k < length (ReverseBytes data)"
  then have k: "k < length data"
    by (simp add: ReverseBytes_def reverse_loop_length)
  then have "reverse_loop 0 (int (length data) - 1) data ! k = data ! nat (int (length data) - 1 - int k)"
    by (subst reverse_loop_nth) auto
  also have "nat (int (length data) - 1 - int k) = length data - Suc k"
    using k by linarith
  finally show "ReverseBytes data ! k = rev data ! k"
    using k by (simp add: ReverseBytes_def rev_nth)
qed


subsection \<open>Big-endian bytes\<close>

lemma SetBytes_snoc: "SetBytes (buf @ [b]) = SetBytes buf * 256 + unat b"
  by (simp add: SetBytes_def)

lemma SetBytes_Nil: "SetBytes [] = 0"
  by (simp add: SetBytes_def)

lemma foldl_zero_bytes:
  "foldl (\<lambda>acc b. acc * 256 + unat b) 0 (replicate k (0::byte)) = 0"
  by (induction k) simp_all

lemma SetBytes_leading_zeros: "SetBytes (replicate k 0 @ y) = SetBytes y"
  by (simp add: SetBytes_def foldl_zero_bytes)

lemma SetBytes_eq_0: "SetBytes y = 0 \<Longrightarrow> b \<in> set y \<Longrightarrow> b = 0"
proof (induction y rule: rev_induct)
  case Nil
  then show ?case by simp
next
  case (snoc x xs)
  from snoc.prems(1) have "SetBytes xs = 0" and "unat x = 0"
    by (simp_all add: SetBytes_snoc)
  with snoc show ?case by (auto simp: unat_eq_0)
qed

lemma Bytes_0: "Bytes 0 = []"
  by (subst Bytes.simps) simp

lemma Bytes_SetBytes: "y = [] \<or> hd y \<noteq> 0 \<Longrightarrow> Bytes (SetBytes y) = y"
proof (induction y rule: rev_induct)
  case Nil
  then show ?case by (simp add: SetBytes_Nil Bytes_0)
next
  case (snoc b ys)
  have nz: "SetBytes (ys @ [b]) \<noteq> 0"
  proof
    assume "SetBytes (ys @ [b]) = 0"
    then have "hd (ys @ [b]) = 0"
      by (rule SetBytes_eq_0) (cases ys; simp)
    with snoc.prems show False by simp
  qed
  have ys: "ys = [] \<or> hd ys \<noteq> 0"
    using snoc.prems by (cases ys) auto
  have "unat b < 2 ^ LENGTH(8)"
    by (rule unsigned_less)
  then have "unat b < 256"
    by simp
  then have dm: "SetBytes (ys @ [b]) div 256 = SetBytes ys" "SetBytes (ys @ [b]) mod 256 = unat b"
    by (simp_all add: SetBytes_snoc)
  have "Bytes (SetBytes (ys @ [b])) = Bytes (SetBytes ys) @ [of_nat (unat b)]"
    using nz by (subst Bytes.simps) (simp add: dm)
  then show ?case
    by (simp add: snoc.IH [OF ys])
qed

subsection \<open>Base-58 digits\<close>

lemma encode_digits_eq:
  "encode_digits x result = result @ map (\<lambda>d. b58Alphabet ! d) (digits58 x)"
proof (induction x result rule: encode_digits.induct)
  case (1 x result)
  show ?case
  proof (cases "x = 0")
    case True
    then show ?thesis
      by (subst encode_digits.simps, subst digits58.simps) simp
  next
    case False
    then show ?thesis
      by (subst encode_digits.simps, subst digits58.simps) (simp add: "1.IH")
  qed
qed

lemma digits58_lt: "d \<in> set (digits58 x) \<Longrightarrow> d < 58"
proof (induction x rule: digits58.induct)
  case (1 x)
  then show ?case
    by (subst (asm) digits58.simps) (auto split: if_splits)
qed

lemma digits58_last: "digits58 x \<noteq> [] \<Longrightarrow> last (digits58 x) \<noteq> 0"
proof (induction x rule: digits58.induct)
  case (1 x)
  show ?case
  proof (cases "x div 58 = 0")
    case True
    have "x \<noteq> 0" using "1.prems" by (subst (asm) digits58.simps) (auto split: if_splits)
    then have "digits58 x = [x mod 58]" "x mod 58 \<noteq> 0"
      using True by (subst digits58.simps, subst digits58.simps, simp, simp add: div_eq_0_iff)+
    then show ?thesis by simp
  next
    case False
    then have x: "x \<noteq> 0" by auto
    have ne: "digits58 (x div 58) \<noteq> []"
      using False by (subst digits58.simps) simp
    have "digits58 x = x mod 58 # digits58 (x div 58)"
      using x by (subst digits58.simps) simp
    then show ?thesis
      using "1.IH" [OF x ne] ne by simp
  qed
qed

lemma digits58_value: "foldr (\<lambda>d a. a * 58 + d) (digits58 x) 0 = x"
proof (induction x rule: digits58.induct)
  case (1 x)
  show ?case
  proof (cases "x = 0")
    case True
    then show ?thesis by (subst digits58.simps) simp
  next
    case False
    then show ?thesis
      by (subst digits58.simps) (simp add: "1.IH")
  qed
qed


subsection \<open>The alphabet\<close>

lemma b58Alphabet_length: "length b58Alphabet = 58"
  by (simp add: b58Alphabet_def bytes_of_string_def)

lemma b58Alphabet_distinct: "distinct b58Alphabet"
  by code_simp

lemma IndexByte_nth:
  "distinct s \<Longrightarrow> i < length s \<Longrightarrow> IndexByte s (s ! i) = int i"
proof (induction s arbitrary: i)
  case Nil
  then show ?case by simp
next
  case (Cons b bs)
  show ?case
  proof (cases i)
    case 0
    then show ?thesis by simp
  next
    case (Suc k)
    with Cons.prems have "bs ! k \<in> set bs" "b \<notin> set bs" "k < length bs" "distinct bs"
      by auto
    then have "b \<noteq> bs ! k" "IndexByte bs (bs ! k) = int k"
      using Cons.IH by auto
    then show ?thesis
      using Suc by (simp add: Let_def)
  qed
qed

lemma IndexByte_b58: "d < 58 \<Longrightarrow> IndexByte b58Alphabet (b58Alphabet ! d) = int d"
  by (rule IndexByte_nth) (simp_all add: b58Alphabet_distinct b58Alphabet_length)

lemma b58_nth_neq_one: "d < 58 \<Longrightarrow> d \<noteq> 0 \<Longrightarrow> b58Alphabet ! d \<noteq> b58Alphabet ! 0"
  using b58Alphabet_distinct b58Alphabet_length
  by (simp add: nth_eq_iff_index_eq)

subsection \<open>The loops of the decoder and the encoder\<close>

lemma decode_digits_map:
  "\<forall>d \<in> set ds. d < 58 \<Longrightarrow>
   decode_digits (map (\<lambda>d. b58Alphabet ! d) ds) acc = Some (foldl (\<lambda>a d. a * 58 + d) acc ds)"
  by (induction ds arbitrary: acc) (simp_all add: IndexByte_b58 Let_def)

lemma encode_zeros_eq:
  "encode_zeros input result =
     result @ replicate (length (takeWhile (\<lambda>b. b = 0) input)) (b58Alphabet ! 0)"
  by (induction input arbitrary: result) (simp_all add: replicate_app_Cons_same)

lemma count_leadingOnes_eq:
  "count_leadingOnes input n = n + length (takeWhile (\<lambda>b. b = b58Alphabet ! 0) input)"
  by (induction input arbitrary: n) simp_all

lemma takeWhile_zero_replicate:
  "takeWhile (\<lambda>b. b = (0::byte)) xs = replicate (length (takeWhile (\<lambda>b. b = 0) xs)) 0"
  by (induction xs) simp_all

lemma foldl_leading_zero_digits:
  "foldl (\<lambda>a d. a * 58 + d) 0 (replicate k (0::nat) @ ds) = foldl (\<lambda>a d. a * 58 + d) 0 ds"
  by (induction k) simp_all

lemma takeWhile_map_hd:
  "zs \<noteq> [] \<Longrightarrow> \<not> P (f (hd zs)) \<Longrightarrow> takeWhile P (map f zs) = []"
  by (cases zs) auto

text \<open>
  C8. Decoding an encoding gives the input back, for every byte string: the empty one,
  those with leading zero bytes, and those of zero bytes only.
\<close>

theorem Base58_roundtrip: "Base58Decode (Base58Encode x) = Some x"
proof -
  define k where "k = length (takeWhile (\<lambda>b. b = 0) x)"
  define y where "y = dropWhile (\<lambda>b. b = 0) x"
  define ds where "ds = digits58 (SetBytes x)"
  have x: "x = replicate k 0 @ y"
    unfolding k_def y_def
    by (subst takeWhile_zero_replicate [symmetric]) simp
  have y: "y = [] \<or> hd y \<noteq> 0"
    unfolding y_def using hd_dropWhile [of "\<lambda>b. b = 0" x] by blast
  have n: "SetBytes x = SetBytes y"
    by (subst x) (rule SetBytes_leading_zeros)
  have enc: "Base58Encode x =
      map (\<lambda>d. b58Alphabet ! d) (replicate k 0 @ rev ds)"
    by (simp add: Base58Encode_def ReverseBytes_rev encode_zeros_eq encode_digits_eq
        k_def ds_def rev_map)
  have small: "\<forall>d \<in> set (replicate k 0 @ rev ds). d < 58"
    by (auto simp: ds_def dest: digits58_lt)
  have folds: "foldl (\<lambda>a d. a * 58 + d) 0 (replicate k 0 @ rev ds) = foldr (\<lambda>d a. a * 58 + d) ds 0"
    by (simp only: foldl_leading_zero_digits foldr_conv_foldl)
  have val: "decode_digits (Base58Encode x) 0 = Some (SetBytes x)"
  proof -
    have "decode_digits (Base58Encode x) 0
            = Some (foldl (\<lambda>a d. a * 58 + d) 0 (replicate k 0 @ rev ds))"
      unfolding enc by (rule decode_digits_map [OF small])
    also have "\<dots> = Some (foldr (\<lambda>d a. a * 58 + d) ds 0)"
      by (simp only: folds)
    also have "\<dots> = Some (SetBytes x)"
      by (simp add: ds_def digits58_value)
    finally show ?thesis .
  qed
  have "takeWhile (\<lambda>b. b = b58Alphabet ! 0) (map (\<lambda>d. b58Alphabet ! d) (rev ds)) = []"
  proof (cases "ds = []")
    case True
    then show ?thesis by simp
  next
    case False
    then have "last ds < 58" "last ds \<noteq> 0"
      using digits58_last [of "SetBytes x"] digits58_lt [of "last ds" "SetBytes x"]
      by (simp_all add: ds_def)
    then have neq: "b58Alphabet ! last ds \<noteq> b58Alphabet ! 0"
      by (rule b58_nth_neq_one)
    have "rev ds \<noteq> []" "hd (rev ds) = last ds"
      using False by (simp_all add: hd_rev)
    then show ?thesis
      using neq by (intro takeWhile_map_hd) simp_all
  qed
  then have ones: "count_leadingOnes (Base58Encode x) 0 = k"
    by (simp add: enc count_leadingOnes_eq takeWhile_append map_replicate_const)
  have "Base58Decode (Base58Encode x) = Some (replicate k 0 @ Bytes (SetBytes y))"
    by (simp add: Base58Decode_def val ones n)
  also have "\<dots> = Some x"
    by (simp add: Bytes_SetBytes [OF y] x [symmetric])
  finally show ?thesis .
qed

theorem Base58_roundtrip_witness:
  "Base58Decode (Base58Encode []) = Some []
   \<and> Base58Decode (Base58Encode [0, 0, 7, 255]) = Some [0, 0, 7, 255]
   \<and> Base58Decode (Base58Encode [0, 0]) = Some [0, 0]"
  using Base58_roundtrip [of "[]"] Base58_roundtrip [of "[0, 0, 7, 255]"]
    Base58_roundtrip [of "[0, 0]"]
  by simp

section \<open>Address validation\<close>

lemma sha256_zero_byte:
  "sha256 [0] = [110, 52, 11, 156, 255, 179, 122, 152, 156, 165, 68, 230, 187, 120, 10, 44, 120, 144, 29, 63, 179, 55, 56, 118, 133, 17, 163, 6, 23, 175, 160, 29]"
  by code_simp

lemma sha256_sha256_zero_byte:
  "sha256 [110, 52, 11, 156, 255, 179, 122, 152, 156, 165, 68, 230, 187, 120, 10, 44, 120, 144, 29, 63, 179, 55, 56, 118, 133, 17, 163, 6, 23, 175, 160, 29] = [20, 6, 224, 88, 129, 226, 153, 54, 119, 102, 211, 19, 226, 108, 5, 86, 78, 201, 27, 247, 33, 211, 23, 38, 189, 110, 70, 230, 6, 137, 83, 154]"
  by code_simp

lemma checksum_zero_byte: "checksum [0] = [20, 6, 224, 88]"
  by (simp add: checksum_def addressChecksumLen_def sha256_zero_byte sha256_sha256_zero_byte)

lemma Base58Decode_short: "Base58Decode (bytes_of_string ''1Wh4bh'') = Some [0, 20, 6, 224, 88]"
  by (simp add: Base58Decode_def bytes_of_string_def b58Alphabet_def Bytes.simps Let_def)

lemma ValidateAddress_short: "ValidateAddress ''1Wh4bh''"
  by (simp add: ValidateAddress_def Base58Decode_short addressChecksumLen_def checksum_zero_byte)

text \<open>
  C2 (as the code has it). \<^verbatim>\<open>ValidateAddress\<close> accepts only a string that decodes,
  to at least \<open>1 + addressChecksumLen = 5\<close> bytes, the last four of which are the first
  four bytes of the double SHA-256 of the bytes before them. The guard of the code is
  \<^verbatim>\<open>len(decoded) < 1+addressChecksumLen\<close>: it asks for one payload byte, not for a
  version byte and a 20-byte key hash.
\<close>

theorem ValidateAddress_sound:
  "ValidateAddress address \<Longrightarrow>
     \<exists>decoded. Base58Decode (bytes_of_string address) = Some decoded
       \<and> 5 \<le> length decoded
       \<and> drop (length decoded - 4) decoded
            = take 4 (sha256 (sha256 (take (length decoded - 4) decoded)))"
  by (auto simp: ValidateAddress_def checksum_def addressChecksumLen_def Let_def
      split: option.splits if_splits)

theorem ValidateAddress_sound_witness:
  "ValidateAddress ''1Wh4bh''
   \<and> (\<exists>decoded. Base58Decode (bytes_of_string ''1Wh4bh'') = Some decoded
       \<and> 5 \<le> length decoded
       \<and> drop (length decoded - 4) decoded
            = take 4 (sha256 (sha256 (take (length decoded - 4) decoded))))"
proof -
  have valid: "ValidateAddress ''1Wh4bh''"
    by (rule ValidateAddress_short)
  from ValidateAddress_sound [OF valid] valid show ?thesis
    by blast
qed

text \<open>
  C2 as stated fails: the five-byte payload \<open>00 14 06 e0 58\<close> (a version byte followed
  by its own checksum, no key hash) is a valid address for the code, and it is shorter
  than 25 bytes.
\<close>

theorem ValidateAddress_accepts_five_bytes:
  "\<not> (ValidateAddress ''1Wh4bh'' \<longrightarrow>
       (\<exists>decoded. Base58Decode (bytes_of_string ''1Wh4bh'') = Some decoded
          \<and> 25 \<le> length decoded
          \<and> drop (length decoded - 4) decoded
               = take 4 (sha256 (sha256 (take (length decoded - 4) decoded)))))"
  by (simp add: ValidateAddress_short Base58Decode_short)

section \<open>Signing and verifying\<close>

subsection \<open>What the signing loop leaves alone\<close>

lemma map_update_same:
  "(\<And>y. f (g y) = f y) \<Longrightarrow> map f (xs[i := g (xs ! i)]) = map f xs"
  by (induction xs arbitrary: i) (auto split: nat.splits)

lemma set_Signature_frame:
  "ID (set_Signature tx i sg) = ID tx"
  "TxVout (set_Signature tx i sg) = TxVout tx"
  "length (Vin (set_Signature tx i sg)) = length (Vin tx)"
  "map Txid (Vin (set_Signature tx i sg)) = map Txid (Vin tx)"
  "map Vout (Vin (set_Signature tx i sg)) = map Vout (Vin tx)"
  "map PubKey (Vin (set_Signature tx i sg)) = map PubKey (Vin tx)"
  by (simp_all add: set_Signature_def map_update_same)

lemma sign_inputs_frame:
  "ID (fst (sign_inputs L k prevTXs rnd idxs tx txCopy)) = ID tx
   \<and> TxVout (fst (sign_inputs L k prevTXs rnd idxs tx txCopy)) = TxVout tx
   \<and> map Txid (Vin (fst (sign_inputs L k prevTXs rnd idxs tx txCopy))) = map Txid (Vin tx)
   \<and> map Vout (Vin (fst (sign_inputs L k prevTXs rnd idxs tx txCopy))) = map Vout (Vin tx)
   \<and> map PubKey (Vin (fst (sign_inputs L k prevTXs rnd idxs tx txCopy))) = map PubKey (Vin tx)"
proof (induction idxs arbitrary: tx txCopy)
  case Nil
  then show ?case by simp
next
  case (Cons inID rest)
  show ?case
    by (simp add: Let_def Cons.IH set_Signature_frame split: sum.splits option.splits)
qed

lemma Sign_leaves:
  "ID (fst (Sign L tx privKey prevTXs rnd)) = ID tx
   \<and> map Txid (Vin (fst (Sign L tx privKey prevTXs rnd))) = map Txid (Vin tx)
   \<and> map Vout (Vin (fst (Sign L tx privKey prevTXs rnd))) = map Vout (Vin tx)
   \<and> map PubKey (Vin (fst (Sign L tx privKey prevTXs rnd))) = map PubKey (Vin tx)
   \<and> TxVout (fst (Sign L tx privKey prevTXs rnd)) = TxVout tx
   \<and> TrimmedCopy (fst (Sign L tx privKey prevTXs rnd)) = TrimmedCopy tx"
proof -
  let ?tx' = "fst (Sign L tx privKey prevTXs rnd)"
  have frame: "ID ?tx' = ID tx \<and> TxVout ?tx' = TxVout tx
      \<and> map Txid (Vin ?tx') = map Txid (Vin tx)
      \<and> map Vout (Vin ?tx') = map Vout (Vin tx)
      \<and> map PubKey (Vin ?tx') = map PubKey (Vin tx)"
    using sign_inputs_frame [of L privKey prevTXs rnd _ tx "TrimmedCopy tx"]
    by (simp add: Sign_def Let_def split: option.splits)
  have "map (\<lambda>vin. \<lparr>Txid = Txid vin, Vout = Vout vin, Signature = [], PubKey = []\<rparr>) (Vin ?tx')
      = map (\<lambda>vin. \<lparr>Txid = Txid vin, Vout = Vout vin, Signature = [], PubKey = []\<rparr>) (Vin tx)"
  proof -
    have "map (\<lambda>vin. \<lparr>Txid = Txid vin, Vout = Vout vin, Signature = [], PubKey = []\<rparr>) xs
        = map (\<lambda>(a, b). \<lparr>Txid = a, Vout = b, Signature = [], PubKey = []\<rparr>)
            (zip (map Txid xs) (map Vout xs))" for xs :: "TxInput list"
      by (induction xs) simp_all
    with frame show ?thesis by simp
  qed
  with frame show ?thesis
    by (simp add: TrimmedCopy_def)
qed


text \<open>
  C7. Whatever \<^verbatim>\<open>Sign\<close> does (return or panic, at any input), the receiver it leaves
  has the \<open>ID\<close> it had, the same \<open>Txid\<close>, \<open>Vout\<close> and \<open>PubKey\<close> in every input and
  the same outputs: only \<open>Signature\<close> fields are written. So the unsigned shape (the
  trimmed copy) is the one from before the call, and \<open>ID\<close>, which
  \<^verbatim>\<open>NewUTXOTransaction\<close> sets to the hash of the unsigned transaction before it signs,
  still holds that value.
\<close>

theorem Sign_frame:
  "ID (fst (Sign L tx privKey prevTXs rnd)) = ID tx
   \<and> map Txid (Vin (fst (Sign L tx privKey prevTXs rnd))) = map Txid (Vin tx)
   \<and> map Vout (Vin (fst (Sign L tx privKey prevTXs rnd))) = map Vout (Vin tx)
   \<and> map PubKey (Vin (fst (Sign L tx privKey prevTXs rnd))) = map PubKey (Vin tx)
   \<and> TxVout (fst (Sign L tx privKey prevTXs rnd)) = TxVout tx
   \<and> TrimmedCopy (fst (Sign L tx privKey prevTXs rnd)) = TrimmedCopy tx"
  by (rule Sign_leaves)

subsection \<open>A missing previous transaction\<close>

lemma check_prevTXs_missing:
  "vin \<in> set vins \<Longrightarrow> ID (map_index prevTXs (EncodeToString (Txid vin))) = None \<Longrightarrow>
   check_prevTXs prevTXs vins = Some (Panic ''previous transaction is not correct'')"
  by (induction vins) auto

lemma check_prevTXs_present:
  "\<forall>vin \<in> set vins. ID (map_index prevTXs (EncodeToString (Txid vin))) \<noteq> None \<Longrightarrow>
   check_prevTXs prevTXs vins = None"
  by (induction vins) auto

text \<open>
  C10. A transaction that is no coinbase and has an input whose \<open>Txid\<close> is no key of
  \<open>prevTXs\<close>, or the key of a transaction with a nil \<open>ID\<close>: \<^verbatim>\<open>Sign\<close> and
  \<^verbatim>\<open>Verify\<close> both panic with "previous transaction is not correct". The panic comes
  from the first loop, so no input has been processed: \<^verbatim>\<open>Sign\<close> leaves the receiver as
  it was, whatever the codec, the signer and the random bytes are, and \<^verbatim>\<open>Verify\<close> does
  not answer false. (\<^verbatim>\<open>Verify\<close> writes to its local copy only, never to the receiver, so
  its model has no transaction to return.)
\<close>

theorem missing_prevTX_panics:
  assumes "\<not> IsCoinbase tx"
    and "vin \<in> set (Vin tx)"
    and "case prevTXs (EncodeToString (Txid vin)) of None \<Rightarrow> True | Some prevTx \<Rightarrow> ID prevTx = None"
  shows "Sign L tx privKey prevTXs rnd = (tx, Some (Panic ''previous transaction is not correct''))
       \<and> Verify L tx prevTXs = Inl (Panic ''previous transaction is not correct'')"
proof -
  have "ID (map_index prevTXs (EncodeToString (Txid vin))) = None"
    using assms(3) by (simp add: map_index_def zero_Transaction_def split: option.splits)
  with assms(2) have "check_prevTXs prevTXs (Vin tx) = Some (Panic ''previous transaction is not correct'')"
    by (rule check_prevTXs_missing)
  with assms(1) show ?thesis
    by (simp add: Sign_def Verify_def)
qed


subsection \<open>Signing then verifying\<close>

lemma Transaction_Hash_cong:
  "Vin a = Vin b \<Longrightarrow> TxVout a = TxVout b \<Longrightarrow> Transaction_Hash L a = Transaction_Hash L b"
  by (cases a; cases b) (simp add: Transaction_Hash_def)

lemma Transaction_Hash_total:
  assumes "\<forall>t. gobEncodeTx L t \<noteq> None"
  shows "\<exists>h. Transaction_Hash L tx = Inr h"
proof -
  obtain encoded where "gobEncodeTx L (tx\<lparr>ID := None\<rparr>) = Some encoded"
    using assms by (meson option.exhaust)
  then show ?thesis
    by (simp add: Transaction_Hash_def Transaction_Serialize_def bind_err_def)
qed

lemma digest_of_copy:
  assumes "Vin txCopy = Vin tc" "TxVout txCopy = TxVout tc"
  shows "Transaction_Hash L (set_PubKey (set_Signature txCopy i []) i p)
       = Transaction_Hash L (set_PubKey (set_Signature tc i []) i p)"
  by (rule Transaction_Hash_cong) (simp_all add: set_PubKey_def set_Signature_def assms)

lemma trimmed_restore:
  assumes "trimmed (Vin txCopy)"
  shows "Vin (set_PubKey ((set_PubKey (set_Signature txCopy i []) i p)\<lparr>ID := a\<rparr>) i []) = Vin txCopy"
    and "TxVout (set_PubKey ((set_PubKey (set_Signature txCopy i []) i p)\<lparr>ID := a\<rparr>) i []) = TxVout txCopy"
proof -
  show "Vin (set_PubKey ((set_PubKey (set_Signature txCopy i []) i p)\<lparr>ID := a\<rparr>) i []) = Vin txCopy"
  proof (cases "i < length (Vin txCopy)")
    case True
    with assms have "Signature (Vin txCopy ! i) = []" "PubKey (Vin txCopy ! i) = []"
      by (simp_all add: trimmed_def list_all_length)
    then have "(Vin txCopy ! i)\<lparr>Signature := [], PubKey := p, PubKey := []\<rparr> = Vin txCopy ! i"
      by simp
    with True show ?thesis
      by (simp add: set_PubKey_def set_Signature_def list_update_same_conv)
  next
    case False
    then show ?thesis
      by (simp add: set_PubKey_def set_Signature_def list_update_beyond not_less)
  qed
  show "TxVout (set_PubKey ((set_PubKey (set_Signature txCopy i []) i p)\<lparr>ID := a\<rparr>) i []) = TxVout txCopy"
    by (simp add: set_PubKey_def set_Signature_def)
qed

lemma trimmed_TrimmedCopy: "trimmed (Vin (TrimmedCopy tx))"
  by (simp add: trimmed_def TrimmedCopy_def list_all_iff)

lemma sign_inputs_ok:
  assumes enc: "\<forall>t. gobEncodeTx L t \<noteq> None"
    and sgn: "\<forall>m r. SignASN1 L k m r \<noteq> None"
    and tc: "trimmed (Vin tc)"
  shows "distinct idxs \<Longrightarrow>
     \<forall>i \<in> set idxs. i < length (Vin tc)
        \<and> 0 \<le> Vout (Vin tc ! i)
        \<and> Vout (Vin tc ! i) < int (length (TxVout (map_index prevTXs (EncodeToString (Txid (Vin tc ! i)))))) \<Longrightarrow>
     Vin txCopy = Vin tc \<Longrightarrow> TxVout txCopy = TxVout tc \<Longrightarrow> length (Vin tx) = length (Vin tc) \<Longrightarrow>
     \<exists>tx'. sign_inputs L k prevTXs rnd idxs tx txCopy = (tx', None)
        \<and> length (Vin tx') = length (Vin tx)
        \<and> (\<forall>i < length (Vin tx). i \<notin> set idxs \<longrightarrow> Vin tx' ! i = Vin tx ! i)
        \<and> (\<forall>i \<in> set idxs. \<exists>h sg. input_digest L prevTXs tc i = Inr h
              \<and> SignASN1 L k h (rnd i) = Some sg
              \<and> Vin tx' ! i = (Vin tx ! i)\<lparr>Signature := sg\<rparr>)"
proof (induction idxs arbitrary: tx txCopy)
  case Nil
  then show ?case by simp
next
  case (Cons inID rest)
  let ?vin = "Vin tc ! inID"
  let ?prevTx = "map_index prevTXs (EncodeToString (Txid ?vin))"
  let ?p = "PubKeyHash (TxVout ?prevTx ! nat (Vout ?vin))"
  from Cons.prems(2) have inID: "inID < length (Vin tc)"
    and rng: "0 \<le> Vout ?vin" "Vout ?vin < int (length (TxVout ?prevTx))"
    by simp_all
  have idx: "index_at (TxVout ?prevTx) (Vout ?vin) = Inr (TxVout ?prevTx ! nat (Vout ?vin))"
    using rng by (simp add: index_at_def)
  obtain h where h: "input_digest L prevTXs tc inID = Inr h"
    using Transaction_Hash_total [OF enc] by (auto simp: input_digest_def Let_def)
  then have h': "Transaction_Hash L (set_PubKey (set_Signature txCopy inID []) inID ?p) = Inr h"
    using digest_of_copy [OF Cons.prems(3,4), of L inID ?p] by (simp add: input_digest_def Let_def)
  obtain sg where sg: "SignASN1 L k h (rnd inID) = Some sg"
    using sgn by (meson option.exhaust)
  let ?txCopy' = "set_PubKey ((set_PubKey (set_Signature txCopy inID []) inID ?p)\<lparr>ID := Some h\<rparr>) inID []"
  let ?tx1 = "set_Signature tx inID sg"
  have tr: "trimmed (Vin txCopy)"
    using tc Cons.prems(3) by simp
  have step: "sign_inputs L k prevTXs rnd (inID # rest) tx txCopy
            = sign_inputs L k prevTXs rnd rest ?tx1 ?txCopy'"
    by (simp add: Let_def Cons.prems(3) idx h' sg)
  have "\<exists>tx'. sign_inputs L k prevTXs rnd rest ?tx1 ?txCopy' = (tx', None)
        \<and> length (Vin tx') = length (Vin ?tx1)
        \<and> (\<forall>i < length (Vin ?tx1). i \<notin> set rest \<longrightarrow> Vin tx' ! i = Vin ?tx1 ! i)
        \<and> (\<forall>i \<in> set rest. \<exists>h sg. input_digest L prevTXs tc i = Inr h
              \<and> SignASN1 L k h (rnd i) = Some sg
              \<and> Vin tx' ! i = (Vin ?tx1 ! i)\<lparr>Signature := sg\<rparr>)"
  proof (rule Cons.IH)
    show "distinct rest" using Cons.prems(1) by simp
    show "\<forall>i \<in> set rest. i < length (Vin tc)
        \<and> 0 \<le> Vout (Vin tc ! i)
        \<and> Vout (Vin tc ! i) < int (length (TxVout (map_index prevTXs (EncodeToString (Txid (Vin tc ! i))))))"
      using Cons.prems(2) by simp
    show "Vin ?txCopy' = Vin tc"
      using trimmed_restore(1) [OF tr] Cons.prems(3) by simp
    show "TxVout ?txCopy' = TxVout tc"
      using trimmed_restore(2) [OF tr] Cons.prems(4) by simp
    show "length (Vin ?tx1) = length (Vin tc)"
      using Cons.prems(5) by (simp add: set_Signature_def)
  qed
  then obtain tx' where tx': "sign_inputs L k prevTXs rnd rest ?tx1 ?txCopy' = (tx', None)"
    and len: "length (Vin tx') = length (Vin ?tx1)"
    and others: "\<forall>i < length (Vin ?tx1). i \<notin> set rest \<longrightarrow> Vin tx' ! i = Vin ?tx1 ! i"
    and signed: "\<forall>i \<in> set rest. \<exists>h sg. input_digest L prevTXs tc i = Inr h
              \<and> SignASN1 L k h (rnd i) = Some sg
              \<and> Vin tx' ! i = (Vin ?tx1 ! i)\<lparr>Signature := sg\<rparr>"
    by blast
  have notin: "inID \<notin> set rest" using Cons.prems(1) by simp
  have l1: "length (Vin ?tx1) = length (Vin tx)"
    by (simp add: set_Signature_def)
  have at_inID: "Vin tx' ! inID = (Vin tx ! inID)\<lparr>Signature := sg\<rparr>"
    using others notin inID Cons.prems(5) by (simp add: set_Signature_def)
  have at_rest: "Vin ?tx1 ! i = Vin tx ! i" if "i \<in> set rest" for i
  proof -
    from that notin have "i \<noteq> inID" by auto
    then show ?thesis by (simp add: set_Signature_def)
  qed
  have at_other: "\<And>i. i < length (Vin tx) \<Longrightarrow> i \<notin> set (inID # rest) \<Longrightarrow> Vin tx' ! i = Vin tx ! i"
    using others l1 by (auto simp: set_Signature_def)
  show ?case
    unfolding step
    apply (rule exI [of _ tx'])
    using tx' len l1 at_inID at_rest at_other signed h sg
    by auto
qed


lemma verify_inputs_ok:
  assumes tc: "trimmed (Vin tc)"
  shows "\<forall>i \<in> set idxs. i < length (Vin tc)
        \<and> Txid (Vin tx ! i) = Txid (Vin tc ! i)
        \<and> Vout (Vin tx ! i) = Vout (Vin tc ! i)
        \<and> 0 \<le> Vout (Vin tc ! i)
        \<and> Vout (Vin tc ! i) < int (length (TxVout (map_index prevTXs (EncodeToString (Txid (Vin tc ! i))))))
        \<and> (\<exists>h x y. input_digest L prevTXs tc i = Inr h
              \<and> Unmarshal L (PubKey (Vin tx ! i)) = Some (x, y)
              \<and> VerifyASN1 L \<lparr>X = x, Y = y\<rparr> h (Signature (Vin tx ! i))) \<Longrightarrow>
     Vin txCopy = Vin tc \<Longrightarrow> TxVout txCopy = TxVout tc \<Longrightarrow>
     verify_inputs L prevTXs tx idxs txCopy = Inr True"
proof (induction idxs arbitrary: txCopy)
  case Nil
  then show ?case by simp
next
  case (Cons inID rest)
  let ?vin = "Vin tc ! inID"
  let ?prevTx = "map_index prevTXs (EncodeToString (Txid ?vin))"
  let ?p = "PubKeyHash (TxVout ?prevTx ! nat (Vout ?vin))"
  from Cons.prems(1) have same: "Txid (Vin tx ! inID) = Txid ?vin" "Vout (Vin tx ! inID) = Vout ?vin"
    and rng: "0 \<le> Vout ?vin" "Vout ?vin < int (length (TxVout ?prevTx))"
    by simp_all
  from Cons.prems(1) obtain h x y where h: "input_digest L prevTXs tc inID = Inr h"
    and um: "Unmarshal L (PubKey (Vin tx ! inID)) = Some (x, y)"
    and ok: "VerifyASN1 L \<lparr>X = x, Y = y\<rparr> h (Signature (Vin tx ! inID))"
    by auto
  have idx: "index_at (TxVout ?prevTx) (Vout ?vin) = Inr (TxVout ?prevTx ! nat (Vout ?vin))"
    using rng by (simp add: index_at_def)
  have h': "Transaction_Hash L (set_PubKey (set_Signature txCopy inID []) inID ?p) = Inr h"
    using digest_of_copy [OF Cons.prems(2,3), of L inID ?p] h by (simp add: input_digest_def Let_def)
  let ?txCopy' = "set_PubKey ((set_PubKey (set_Signature txCopy inID []) inID ?p)\<lparr>ID := Some h\<rparr>) inID []"
  have tr: "trimmed (Vin txCopy)"
    using tc Cons.prems(2) by simp
  have step: "verify_inputs L prevTXs tx (inID # rest) txCopy
            = verify_inputs L prevTXs tx rest ?txCopy'"
    by (simp add: Let_def same idx h' um ok)
  have "verify_inputs L prevTXs tx rest ?txCopy' = Inr True"
  proof (rule Cons.IH)
    show "\<forall>i \<in> set rest. i < length (Vin tc)
        \<and> Txid (Vin tx ! i) = Txid (Vin tc ! i)
        \<and> Vout (Vin tx ! i) = Vout (Vin tc ! i)
        \<and> 0 \<le> Vout (Vin tc ! i)
        \<and> Vout (Vin tc ! i) < int (length (TxVout (map_index prevTXs (EncodeToString (Txid (Vin tc ! i))))))
        \<and> (\<exists>h x y. input_digest L prevTXs tc i = Inr h
              \<and> Unmarshal L (PubKey (Vin tx ! i)) = Some (x, y)
              \<and> VerifyASN1 L \<lparr>X = x, Y = y\<rparr> h (Signature (Vin tx ! i)))"
      using Cons.prems(1) by simp
    show "Vin ?txCopy' = Vin tc"
      using trimmed_restore(1) [OF tr] Cons.prems(2) by simp
    show "TxVout ?txCopy' = TxVout tc"
      using trimmed_restore(2) [OF tr] Cons.prems(3) by simp
  qed
  with step show ?case by simp
qed

lemma TrimmedCopy_nth:
  "i < length (Vin tx) \<Longrightarrow>
   Vin (TrimmedCopy tx) ! i = \<lparr>Txid = Txid (Vin tx ! i), Vout = Vout (Vin tx ! i), Signature = [], PubKey = []\<rparr>"
  by (simp add: TrimmedCopy_def)

lemma TrimmedCopy_length: "length (Vin (TrimmedCopy tx)) = length (Vin tx)"
  by (simp add: TrimmedCopy_def)

lemma IsCoinbase_cong:
  "map Txid (Vin a) = map Txid (Vin b) \<Longrightarrow> map Vout (Vin a) = map Vout (Vin b) \<Longrightarrow>
   IsCoinbase a = IsCoinbase b"
proof -
  assume t: "map Txid (Vin a) = map Txid (Vin b)" and v: "map Vout (Vin a) = map Vout (Vin b)"
  from t have len: "length (Vin a) = length (Vin b)"
    by (rule map_eq_imp_length_eq)
  show ?thesis
  proof (cases "length (Vin b) = 1")
    case True
    with len have "Txid (Vin a ! 0) = Txid (Vin b ! 0)" "Vout (Vin a ! 0) = Vout (Vin b ! 0)"
      using t v by (metis One_nat_def lessI nth_map)+
    with len show ?thesis by (simp add: IsCoinbase_def)
  next
    case False
    with len show ?thesis by (simp add: IsCoinbase_def)
  qed
qed

text \<open>
  C5. For a transaction that is no coinbase, with every input's previous transaction in
  \<open>prevTXs\<close> (non-nil \<open>ID\<close>) and the referenced output present, and with the public key
  of \<open>privKey\<close> in every input's \<open>PubKey\<close>: \<^verbatim>\<open>Sign\<close> returns, and \<^verbatim>\<open>Verify\<close> of the
  signed transaction returns true. The libraries are assumed to work: signatures made
  with \<open>privKey\<close> verify under its public key, and neither the signer nor the gob
  encoder fails.
\<close>

theorem Verify_Sign:
  assumes nc: "\<not> IsCoinbase tx"
    and prev: "\<forall>vin \<in> set (Vin tx). \<exists>prevTx. prevTXs (EncodeToString (Txid vin)) = Some prevTx
                 \<and> ID prevTx \<noteq> None
                 \<and> 0 \<le> Vout vin \<and> Vout vin < int (length (TxVout prevTx))"
    and key: "\<forall>vin \<in> set (Vin tx).
                 Unmarshal L (PubKey vin) = Some (X (PublicKey privKey), Y (PublicKey privKey))"
    and ecdsa: "\<forall>m r sg. SignASN1 L privKey m r = Some sg \<longrightarrow> VerifyASN1 L (PublicKey privKey) m sg"
    and sgn: "\<forall>m r. SignASN1 L privKey m r \<noteq> None"
    and enc: "\<forall>t. gobEncodeTx L t \<noteq> None"
  shows "\<exists>tx'. Sign L tx privKey prevTXs rnd = (tx', None) \<and> Verify L tx' prevTXs = Inr True"
proof -
  let ?tc = "TrimmedCopy tx"
  let ?n = "length (Vin tx)"
  have tr: "trimmed (Vin ?tc)" by (rule trimmed_TrimmedCopy)
  have chk: "check_prevTXs prevTXs (Vin tx) = None"
    using prev by (intro check_prevTXs_present) (auto simp: map_index_def)
  have valid: "\<forall>i \<in> set [0..<?n]. i < length (Vin ?tc)
        \<and> 0 \<le> Vout (Vin ?tc ! i)
        \<and> Vout (Vin ?tc ! i) < int (length (TxVout (map_index prevTXs (EncodeToString (Txid (Vin ?tc ! i))))))"
  proof
    fix i assume "i \<in> set [0..<?n]"
    then have i: "i < ?n" by simp
    then have "Vin tx ! i \<in> set (Vin tx)" by simp
    with prev obtain prevTx where "prevTXs (EncodeToString (Txid (Vin tx ! i))) = Some prevTx"
      "0 \<le> Vout (Vin tx ! i)" "Vout (Vin tx ! i) < int (length (TxVout prevTx))"
      by blast
    with i show "i < length (Vin ?tc)
        \<and> 0 \<le> Vout (Vin ?tc ! i)
        \<and> Vout (Vin ?tc ! i) < int (length (TxVout (map_index prevTXs (EncodeToString (Txid (Vin ?tc ! i))))))"
      by (simp add: TrimmedCopy_nth TrimmedCopy_length map_index_def)
  qed
  have "\<exists>tx'. sign_inputs L privKey prevTXs rnd [0..<?n] tx ?tc = (tx', None)
        \<and> length (Vin tx') = length (Vin tx)
        \<and> (\<forall>i < length (Vin tx). i \<notin> set [0..<?n] \<longrightarrow> Vin tx' ! i = Vin tx ! i)
        \<and> (\<forall>i \<in> set [0..<?n]. \<exists>h sg. input_digest L prevTXs ?tc i = Inr h
              \<and> SignASN1 L privKey h (rnd i) = Some sg
              \<and> Vin tx' ! i = (Vin tx ! i)\<lparr>Signature := sg\<rparr>)"
  proof (rule sign_inputs_ok [OF enc sgn tr])
    show "distinct [0..<?n]" by simp
    show "\<forall>i \<in> set [0..<?n]. i < length (Vin ?tc)
        \<and> 0 \<le> Vout (Vin ?tc ! i)
        \<and> Vout (Vin ?tc ! i) < int (length (TxVout (map_index prevTXs (EncodeToString (Txid (Vin ?tc ! i))))))"
      by (rule valid)
    show "Vin ?tc = Vin ?tc" "TxVout ?tc = TxVout ?tc" by (rule refl)+
    show "length (Vin tx) = length (Vin ?tc)" by (simp add: TrimmedCopy_length)
  qed
  then obtain tx' where s: "sign_inputs L privKey prevTXs rnd [0..<?n] tx ?tc = (tx', None)"
    and len: "length (Vin tx') = ?n"
    and signed: "\<forall>i \<in> set [0..<?n]. \<exists>h sg. input_digest L prevTXs ?tc i = Inr h
              \<and> SignASN1 L privKey h (rnd i) = Some sg
              \<and> Vin tx' ! i = (Vin tx ! i)\<lparr>Signature := sg\<rparr>"
    by blast
  have sign: "Sign L tx privKey prevTXs rnd = (tx', None)"
    using nc chk s by (simp add: Sign_def Let_def TrimmedCopy_length)
  have frame: "map Txid (Vin tx') = map Txid (Vin tx)" "map Vout (Vin tx') = map Vout (Vin tx)"
    "TrimmedCopy tx' = ?tc"
    using Sign_leaves [of L tx privKey prevTXs rnd] sign by simp_all
  have nc': "\<not> IsCoinbase tx'"
    using nc IsCoinbase_cong [OF frame(1,2)] by simp
  have chk': "check_prevTXs prevTXs (Vin tx') = None"
  proof (rule check_prevTXs_present, rule ballI)
    fix vin assume "vin \<in> set (Vin tx')"
    then have "Txid vin \<in> set (map Txid (Vin tx))"
      using frame(1) by (metis image_eqI set_map)
    then obtain vin0 where "vin0 \<in> set (Vin tx)" "Txid vin = Txid vin0"
      by auto
    with prev show "ID (map_index prevTXs (EncodeToString (Txid vin))) \<noteq> None"
      by (auto simp: map_index_def)
  qed
  have each: "\<forall>i \<in> set [0..<?n]. i < length (Vin ?tc)
        \<and> Txid (Vin tx' ! i) = Txid (Vin ?tc ! i)
        \<and> Vout (Vin tx' ! i) = Vout (Vin ?tc ! i)
        \<and> 0 \<le> Vout (Vin ?tc ! i)
        \<and> Vout (Vin ?tc ! i) < int (length (TxVout (map_index prevTXs (EncodeToString (Txid (Vin ?tc ! i))))))
        \<and> (\<exists>h x y. input_digest L prevTXs ?tc i = Inr h
              \<and> Unmarshal L (PubKey (Vin tx' ! i)) = Some (x, y)
              \<and> VerifyASN1 L \<lparr>X = x, Y = y\<rparr> h (Signature (Vin tx' ! i)))"
  proof
    fix i assume mem: "i \<in> set [0..<?n]"
    then have i: "i < ?n" by simp
    from signed mem obtain h sg where h: "input_digest L prevTXs ?tc i = Inr h"
      and sg: "SignASN1 L privKey h (rnd i) = Some sg"
      and at: "Vin tx' ! i = (Vin tx ! i)\<lparr>Signature := sg\<rparr>"
      by blast
    have "Vin tx ! i \<in> set (Vin tx)" using i by simp
    with key have um: "Unmarshal L (PubKey (Vin tx ! i)) = Some (X (PublicKey privKey), Y (PublicKey privKey))"
      by blast
    have v: "VerifyASN1 L (PublicKey privKey) h sg"
      using ecdsa sg by blast
    have surj: "\<lparr>X = X pk, Y = Y pk\<rparr> = pk" for pk :: ecdsa_PublicKey
      by (cases pk) simp
    have "VerifyASN1 L \<lparr>X = X (PublicKey privKey), Y = Y (PublicKey privKey)\<rparr> h sg"
      unfolding surj by (rule v)
    with valid mem h um at i
    show "i < length (Vin ?tc)
        \<and> Txid (Vin tx' ! i) = Txid (Vin ?tc ! i)
        \<and> Vout (Vin tx' ! i) = Vout (Vin ?tc ! i)
        \<and> 0 \<le> Vout (Vin ?tc ! i)
        \<and> Vout (Vin ?tc ! i) < int (length (TxVout (map_index prevTXs (EncodeToString (Txid (Vin ?tc ! i))))))
        \<and> (\<exists>h x y. input_digest L prevTXs ?tc i = Inr h
              \<and> Unmarshal L (PubKey (Vin tx' ! i)) = Some (x, y)
              \<and> VerifyASN1 L \<lparr>X = x, Y = y\<rparr> h (Signature (Vin tx' ! i)))"
      by (auto simp: TrimmedCopy_nth)
  qed
  have "verify_inputs L prevTXs tx' [0..<?n] ?tc = Inr True"
    by (rule verify_inputs_ok [OF tr each]) simp_all
  then have "Verify L tx' prevTXs = Inr True"
    using nc' chk' len frame(3) by (simp add: Verify_def Let_def)
  with sign show ?thesis by blast
qed

subsection \<open>The three theorems at a concrete transaction\<close>

lemma EncodeToString_01: "EncodeToString [1] = ''01''"
  by (simp add: EncodeToString_def hextable_def)

lemma demo_spend_not_coinbase: "\<not> IsCoinbase demo_spend"
  by (simp add: IsCoinbase_def demo_spend_def)

theorem Sign_frame_witness:
  "ID (fst (Sign (demo_env []) demo_spend demo_key [''01'' \<mapsto> demo_prevTx] (\<lambda>i. []))) = Some [2]
   \<and> map PubKey (Vin (fst (Sign (demo_env []) demo_spend demo_key [''01'' \<mapsto> demo_prevTx] (\<lambda>i. []))))
       = [[4, 5]]"
  using Sign_frame [of "demo_env []" demo_spend demo_key "[''01'' \<mapsto> demo_prevTx]" "\<lambda>i. []"]
  by (simp add: demo_spend_def)

theorem missing_prevTX_panics_witness:
  "Sign (demo_env []) demo_spend demo_key Map.empty (\<lambda>i. [])
     = (demo_spend, Some (Panic ''previous transaction is not correct''))
   \<and> Verify (demo_env []) demo_spend Map.empty = Inl (Panic ''previous transaction is not correct'')"
proof (rule missing_prevTX_panics)
  show "\<not> IsCoinbase demo_spend"
    by (rule demo_spend_not_coinbase)
  show "\<lparr>Txid = [1], Vout = 0, Signature = [], PubKey = [4, 5]\<rparr> \<in> set (Vin demo_spend)"
    by (simp add: demo_spend_def)
  show "case Map.empty (EncodeToString (Txid \<lparr>Txid = [1], Vout = 0, Signature = [], PubKey = [4, 5]\<rparr>))
          of None \<Rightarrow> True | Some prevTx \<Rightarrow> ID prevTx = None"
    by simp
qed

theorem Verify_Sign_witness:
  "\<not> IsCoinbase demo_spend
   \<and> (\<exists>tx'. Sign (demo_env []) demo_spend demo_key [''01'' \<mapsto> demo_prevTx] (\<lambda>i. []) = (tx', None)
          \<and> Verify (demo_env []) tx' [''01'' \<mapsto> demo_prevTx] = Inr True)"
proof -
  have "\<exists>tx'. Sign (demo_env []) demo_spend demo_key [''01'' \<mapsto> demo_prevTx] (\<lambda>i. []) = (tx', None)
          \<and> Verify (demo_env []) tx' [''01'' \<mapsto> demo_prevTx] = Inr True"
  proof (rule Verify_Sign)
    show "\<not> IsCoinbase demo_spend"
      by (rule demo_spend_not_coinbase)
    show "\<forall>vin \<in> set (Vin demo_spend).
            \<exists>prevTx. [''01'' \<mapsto> demo_prevTx] (EncodeToString (Txid vin)) = Some prevTx
              \<and> ID prevTx \<noteq> None \<and> 0 \<le> Vout vin \<and> Vout vin < int (length (TxVout prevTx))"
      by (simp add: demo_spend_def demo_prevTx_def EncodeToString_01)
    show "\<forall>vin \<in> set (Vin demo_spend).
            Unmarshal (demo_env []) (PubKey vin) = Some (X (PublicKey demo_key), Y (PublicKey demo_key))"
      by (simp add: demo_spend_def demo_env_def demo_Unmarshal_def demo_key_def)
    show "\<forall>m r sg. SignASN1 (demo_env []) demo_key m r = Some sg
            \<longrightarrow> VerifyASN1 (demo_env []) (PublicKey demo_key) m sg"
      by (auto simp: demo_env_def demo_sign_def demo_verify_def)
    show "\<forall>m r. SignASN1 (demo_env []) demo_key m r \<noteq> None"
      by (simp add: demo_env_def)
    show "\<forall>t. gobEncodeTx (demo_env []) t \<noteq> None"
      by (simp add: demo_env_def)
  qed
  then show ?thesis
    using demo_spend_not_coinbase by blast
qed

section \<open>Storing a received block\<close>

text \<open>
  What \<^verbatim>\<open>PutBlock\<close> does to a store, in terms of the store it starts from, for a block
  whose hash is not the key of the tip entry and as long as the key-value engine accepts
  the writes it is asked for. \<open>b0\<close> is the bucket before the call and \<open>b1\<close> the bucket
  with the block inserted under its hash (if no entry was there); the tip entry of
  \<open>b1\<close> is that of \<open>b0\<close>. If the tip entry of \<open>b0\<close> is absent or empty, the stored tip
  and the \<open>tip\<close> field become the block's hash; if not, and the block's
  \<open>PrevBlockHash\<close> is that entry, they advance to the block's hash; otherwise the block
  stays stored and neither changes.
\<close>

lemma PutBlock_outcomes:
  assumes dec: "DeserializeBlock L blockData = Inr block"
    and b0: "b0 = (case db bc of None \<Rightarrow> Map.empty | Some b \<Rightarrow> b)"
    and b1: "b1 = (if b0 (Hash block) = None then b0(Hash block \<mapsto> blockData) else b0)"
    and key: "Hash block \<noteq> lastHashKey"
    and put1: "b0 (Hash block) = None \<longrightarrow> bucketPut L (Hash block) blockData = None"
  shows "b1 lastHashKey = b0 lastHashKey
       \<and> (slice_bytes (b0 lastHashKey) = [] \<and> bucketPut L lastHashKey (Hash block) = None \<longrightarrow>
            PutBlock L blockData bc = Inr \<lparr>db = Some (b1(lastHashKey \<mapsto> Hash block)), tip = Hash block\<rparr>)
       \<and> (slice_bytes (b0 lastHashKey) \<noteq> [] \<and> PrevBlockHash block = slice_bytes (b0 lastHashKey)
            \<and> bucketPut L lastHashKey (Hash block) = None \<longrightarrow>
            PutBlock L blockData bc = Inr \<lparr>db = Some (b1(lastHashKey \<mapsto> Hash block)), tip = Hash block\<rparr>)
       \<and> (slice_bytes (b0 lastHashKey) \<noteq> [] \<and> PrevBlockHash block \<noteq> slice_bytes (b0 lastHashKey) \<longrightarrow>
            PutBlock L blockData bc = Inr \<lparr>db = Some b1, tip = tip bc\<rparr>)"
proof -
  have same: "b1 lastHashKey = b0 lastHashKey"
    using key by (simp add: b1)
  have ins: "(if b0 (Hash block) = None then bucket_Put L b0 (Hash block) blockData else Inr b0) = Inr b1"
    using put1 by (simp add: b1 bucket_Put_def)
  have run: "PutBlock L blockData bc =
      (case b1 lastHashKey of
         None \<Rightarrow> bind_err (bucket_Put L b1 lastHashKey (Hash block))
                   (\<lambda>b. Inr \<lparr>db = Some b, tip = Hash block\<rparr>)
       | Some currentTip \<Rightarrow>
           if length currentTip = 0
           then bind_err (bucket_Put L b1 lastHashKey (Hash block))
                  (\<lambda>b. Inr \<lparr>db = Some b, tip = Hash block\<rparr>)
           else if PrevBlockHash block = currentTip
           then bind_err (bucket_Put L b1 lastHashKey (Hash block))
                  (\<lambda>b. Inr \<lparr>db = Some b, tip = Hash block\<rparr>)
           else Inr \<lparr>db = Some b1, tip = tip bc\<rparr>)"
    unfolding PutBlock_def dec bind_err_def
    by (simp add: b0 [symmetric] ins Let_def bind_err_def)
  have upd: "bucketPut L lastHashKey (Hash block) = None \<Longrightarrow>
      bind_err (bucket_Put L b1 lastHashKey (Hash block)) (\<lambda>b. Inr \<lparr>db = Some b, tip = Hash block\<rparr>)
        = Inr \<lparr>db = Some (b1(lastHashKey \<mapsto> Hash block)), tip = Hash block\<rparr>"
    by (simp add: bucket_Put_def bind_err_def)
  show ?thesis
    unfolding run same by (auto simp: slice_bytes_def upd split: option.splits)
qed

text \<open>
  C4 fails in the code. The claim: \<^verbatim>\<open>PutBlock\<close> inserts the block under its hash if it
  is not present; then, if the stored tip entry is empty, the tip becomes the block's
  hash; otherwise, if the block's \<open>PrevBlockHash\<close> is the current tip, the tip advances
  to the block's hash; otherwise the block stays stored and the tip is unchanged. The
  code does this for every block whose hash is not the key \<^verbatim>\<open>"l"\<close> of the tip entry
  (\<open>PutBlock_outcomes\<close>). Blocks and the tip entry share one bucket, though, and the hash
  of a received block is not checked: on a store with no tip entry, the bytes of a block
  whose \<open>Hash\<close> is \<^verbatim>\<open>"l"\<close> are stored under the tip's key, the code reads them back as
  the current tip, and returns. The engine accepts every write, the stored tip entry was
  empty, and yet the tip has not become the block's hash: the \<open>tip\<close> field is still
  empty and the stored tip entry is the block's bytes.
\<close>

theorem PutBlock_empty_tip_not_adopted:
  "DeserializeBlock (demo_env [([7], demo_block lastHashKey [] [])]) [7]
     = Inr (demo_block lastHashKey [] [])
   \<and> bucketPut (demo_env [([7], demo_block lastHashKey [] [])])
        (Hash (demo_block lastHashKey [] [])) [7] = None
   \<and> bucketPut (demo_env [([7], demo_block lastHashKey [] [])])
        lastHashKey (Hash (demo_block lastHashKey [] [])) = None
   \<and> slice_bytes (Map.empty lastHashKey) = []
   \<and> PutBlock (demo_env [([7], demo_block lastHashKey [] [])]) [7] \<lparr>db = Some Map.empty, tip = []\<rparr>
       = Inr \<lparr>db = Some [lastHashKey \<mapsto> [7]], tip = []\<rparr>
   \<and> tip \<lparr>db = Some [lastHashKey \<mapsto> [7]], tip = []\<rparr> \<noteq> Hash (demo_block lastHashKey [] [])
   \<and> [lastHashKey \<mapsto> [7]] lastHashKey \<noteq> Some (Hash (demo_block lastHashKey [] []))"
  by (simp add: slice_bytes_def PutBlock_def DeserializeBlock_def demo_env_def demo_block_def
      bind_err_def bucket_Put_def bbolt_Put_def lastHashKey_def bytes_of_string_def)

lemma PutBlock_present:
  assumes "DeserializeBlock L blockData = Inr block"
    and "db bc = Some b"
    and "b (Hash block) \<noteq> None"
  shows "PutBlock L blockData bc =
      (if slice_bytes (b lastHashKey) = [] \<or> PrevBlockHash block = slice_bytes (b lastHashKey)
       then bind_err (bucket_Put L b lastHashKey (Hash block)) (\<lambda>b. Inr \<lparr>db = Some b, tip = Hash block\<rparr>)
       else Inr \<lparr>db = Some b, tip = tip bc\<rparr>)"
proof -
  have "PutBlock L blockData bc =
      (case b lastHashKey of
         None \<Rightarrow> bind_err (bucket_Put L b lastHashKey (Hash block)) (\<lambda>b. Inr \<lparr>db = Some b, tip = Hash block\<rparr>)
       | Some currentTip \<Rightarrow>
           if length currentTip = 0
           then bind_err (bucket_Put L b lastHashKey (Hash block)) (\<lambda>b. Inr \<lparr>db = Some b, tip = Hash block\<rparr>)
           else if PrevBlockHash block = currentTip
           then bind_err (bucket_Put L b lastHashKey (Hash block)) (\<lambda>b. Inr \<lparr>db = Some b, tip = Hash block\<rparr>)
           else Inr \<lparr>db = Some b, tip = tip bc\<rparr>)"
  proof -
    from assms(3) obtain stored where "b (Hash block) = Some stored"
      by blast
    then show ?thesis
      unfolding PutBlock_def assms(1) assms(2)
      by (simp add: bind_err_def Let_def)
  qed
  then show ?thesis
    by (simp add: slice_bytes_def split: option.splits)
qed

lemma PutBlock_cases:
  assumes "PutBlock L blockData bc = Inr bc'"
  obtains (advance) block b1 where "DeserializeBlock L blockData = Inr block"
      and "b1 (Hash block) \<noteq> None"
      and "bucketPut L lastHashKey (Hash block) = None"
      and "bc' = \<lparr>db = Some (b1(lastHashKey \<mapsto> Hash block)), tip = Hash block\<rparr>"
    | (stay) block b1 where "DeserializeBlock L blockData = Inr block"
      and "b1 (Hash block) \<noteq> None"
      and "slice_bytes (b1 lastHashKey) \<noteq> []"
      and "PrevBlockHash block \<noteq> slice_bytes (b1 lastHashKey)"
      and "bc' = \<lparr>db = Some b1, tip = tip bc\<rparr>"
      and "Hash block \<noteq> lastHashKey \<longrightarrow>
             b1 lastHashKey = (case db bc of None \<Rightarrow> None | Some b \<Rightarrow> b lastHashKey)"
proof -
  obtain block where dec: "DeserializeBlock L blockData = Inr block"
    using assms by (cases "DeserializeBlock L blockData") (simp_all add: PutBlock_def bind_err_def)
  define b0 where "b0 = (case db bc of None \<Rightarrow> Map.empty | Some b \<Rightarrow> b)"
  define ins where "ins = (if b0 (Hash block) = None then bucket_Put L b0 (Hash block) blockData else Inr b0)"
  have run0: "PutBlock L blockData bc =
      bind_err ins (\<lambda>b.
         (case b lastHashKey of
            None \<Rightarrow> bind_err (bucket_Put L b lastHashKey (Hash block)) (\<lambda>b. Inr \<lparr>db = Some b, tip = Hash block\<rparr>)
          | Some currentTip \<Rightarrow>
              if length currentTip = 0
              then bind_err (bucket_Put L b lastHashKey (Hash block)) (\<lambda>b. Inr \<lparr>db = Some b, tip = Hash block\<rparr>)
              else if PrevBlockHash block = currentTip
              then bind_err (bucket_Put L b lastHashKey (Hash block)) (\<lambda>b. Inr \<lparr>db = Some b, tip = Hash block\<rparr>)
              else Inr \<lparr>db = Some b, tip = tip bc\<rparr>))"
    unfolding PutBlock_def dec ins_def b0_def
    by (simp add: bind_err_def Let_def)
  obtain b1 where b1: "ins = Inr b1"
    using assms unfolding run0 by (cases ins) (simp_all add: bind_err_def)
  have present: "b1 (Hash block) \<noteq> None"
    using b1 unfolding ins_def bucket_Put_def
    by (auto split: if_splits option.splits)
  have old: "Hash block \<noteq> lastHashKey \<longrightarrow>
             b1 lastHashKey = (case db bc of None \<Rightarrow> None | Some b \<Rightarrow> b lastHashKey)"
    using b1 unfolding ins_def bucket_Put_def b0_def
    by (auto split: if_splits option.splits)
  have run: "(if slice_bytes (b1 lastHashKey) = [] \<or> PrevBlockHash block = slice_bytes (b1 lastHashKey)
       then bind_err (bucket_Put L b1 lastHashKey (Hash block)) (\<lambda>b. Inr \<lparr>db = Some b, tip = Hash block\<rparr>)
       else Inr \<lparr>db = Some b1, tip = tip bc\<rparr>) = Inr bc'"
    using assms unfolding run0 b1
    by (simp add: bind_err_def slice_bytes_def split: option.splits if_splits)
  show thesis
  proof (cases "slice_bytes (b1 lastHashKey) = [] \<or> PrevBlockHash block = slice_bytes (b1 lastHashKey)")
    case True
    with run have r: "bind_err (bucket_Put L b1 lastHashKey (Hash block)) (\<lambda>b. Inr \<lparr>db = Some b, tip = Hash block\<rparr>) = Inr bc'"
      by simp
    then have ok: "bucketPut L lastHashKey (Hash block) = None"
      by (cases "bucketPut L lastHashKey (Hash block)") (simp_all add: bucket_Put_def bind_err_def)
    with r have eq: "bc' = \<lparr>db = Some (b1(lastHashKey \<mapsto> Hash block)), tip = Hash block\<rparr>"
      by (simp add: bucket_Put_def bind_err_def)
    show ?thesis
      by (rule advance [where ?b1.0 = b1, OF dec present ok eq])
  next
    case False
    with run have eq: "bc' = \<lparr>db = Some b1, tip = tip bc\<rparr>"
      by simp
    from False have ne: "slice_bytes (b1 lastHashKey) \<noteq> []"
      and other: "PrevBlockHash block \<noteq> slice_bytes (b1 lastHashKey)"
      by simp_all
    show ?thesis
      by (rule stay [where ?b1.0 = b1, OF dec present ne other eq old])
  qed
qed

text \<open>
  C6. \<^verbatim>\<open>PutBlock\<close> of the same bytes a second time, right after the first, changes
  nothing: the bucket and the tip are those the first call left. (If the first call
  panics, the store is unchanged and the second panics alike.)
\<close>

theorem PutBlock_idempotent:
  "bind_err (PutBlock L blockData bc) (PutBlock L blockData) = PutBlock L blockData bc"
proof (cases "PutBlock L blockData bc")
  case (Inl e)
  then show ?thesis by (simp add: bind_err_def)
next
  case (Inr bc')
  then have "PutBlock L blockData bc' = Inr bc'"
  proof (cases rule: PutBlock_cases)
    case (advance block b1)
    let ?b = "b1(lastHashKey \<mapsto> Hash block)"
    have p: "?b (Hash block) \<noteq> None"
      using advance(2) by simp
    have d: "db bc' = Some ?b"
      by (simp add: advance(4))
    show ?thesis
      unfolding PutBlock_present [where b = ?b, OF advance(1) d p]
      by (simp add: bucket_Put_def bind_err_def slice_bytes_def advance(3,4))
  next
    case (stay block b1)
    have d: "db bc' = Some b1"
      by (simp add: stay(5))
    show ?thesis
      unfolding PutBlock_present [where b = b1, OF stay(1) d stay(2)]
      using stay(3,4) by (simp add: stay(5))
  qed
  with Inr show ?thesis
    by (simp add: bind_err_def)
qed



subsection \<open>On a small store\<close>

lemma demo_PutBlock_first:
  "PutBlock (demo_env [([7], demo_block [1] [] [])]) [7] \<lparr>db = None, tip = []\<rparr>
     = Inr \<lparr>db = Some [[1] \<mapsto> [7], lastHashKey \<mapsto> [1]], tip = [1]\<rparr>"
  by (simp add: PutBlock_def DeserializeBlock_def demo_env_def demo_block_def bind_err_def
      bucket_Put_def bbolt_Put_def lastHashKey_def bytes_of_string_def)

lemma PutBlock_outcomes_demo:
  "PutBlock (demo_env [([7], demo_block [1] [] [])]) [7] \<lparr>db = None, tip = []\<rparr>
     = Inr \<lparr>db = Some [[1] \<mapsto> [7], lastHashKey \<mapsto> [1]], tip = [1]\<rparr>
   \<and> PutBlock (demo_env [([7], demo_block [1] [] [])]) [7] \<lparr>db = Some [lastHashKey \<mapsto> [5]], tip = [5]\<rparr>
     = Inr \<lparr>db = Some [lastHashKey \<mapsto> [5], [1] \<mapsto> [7]], tip = [5]\<rparr>"
proof -
  let ?L = "demo_env [([7], demo_block [1] [] [])]"
  have dec: "DeserializeBlock ?L [7] = Inr (demo_block [1] [] [])"
    by (simp add: DeserializeBlock_def demo_env_def)
  have put1: "b (Hash (demo_block [1] [] [])) = None
                \<longrightarrow> bucketPut ?L (Hash (demo_block [1] [] [])) [7] = None" for b :: bucket
    by (simp add: demo_env_def demo_block_def bbolt_Put_def)
  have put2: "bucketPut ?L lastHashKey (Hash (demo_block [1] [] [])) = None"
    by (simp add: demo_env_def demo_block_def bbolt_Put_def lastHashKey_def bytes_of_string_def)
  have key: "lastHashKey \<noteq> [1]"
    by (simp add: lastHashKey_def bytes_of_string_def)
  then have key': "Hash (demo_block [1] [] []) \<noteq> lastHashKey"
    by (simp add: demo_block_def)
  have "PutBlock ?L [7] \<lparr>db = None, tip = []\<rparr>
     = Inr \<lparr>db = Some [[1] \<mapsto> [7], lastHashKey \<mapsto> [1]], tip = [1]\<rparr>"
    using PutBlock_outcomes [where L = ?L and blockData = "[7]" and block = "demo_block [1] [] []"
        and bc = "\<lparr>db = None, tip = []\<rparr>" and ?b0.0 = Map.empty and ?b1.0 = "[[1] \<mapsto> [7]]"]
      dec put1 put2 key key'
    by (simp add: demo_block_def slice_bytes_def)
  moreover have "PutBlock ?L [7] \<lparr>db = Some [lastHashKey \<mapsto> [5]], tip = [5]\<rparr>
     = Inr \<lparr>db = Some [lastHashKey \<mapsto> [5], [1] \<mapsto> [7]], tip = [5]\<rparr>"
    using PutBlock_outcomes [where L = ?L and blockData = "[7]" and block = "demo_block [1] [] []"
        and bc = "\<lparr>db = Some [lastHashKey \<mapsto> [5]], tip = [5]\<rparr>"
        and ?b0.0 = "[lastHashKey \<mapsto> [5]]" and ?b1.0 = "[lastHashKey \<mapsto> [5], [1] \<mapsto> [7]]"]
      dec put1 key key'
    by (simp add: demo_block_def slice_bytes_def)
  ultimately show ?thesis by simp
qed

theorem PutBlock_idempotent_witness:
  "bind_err (PutBlock (demo_env [([7], demo_block [1] [] [])]) [7] \<lparr>db = None, tip = []\<rparr>)
            (PutBlock (demo_env [([7], demo_block [1] [] [])]) [7])
     = Inr \<lparr>db = Some [[1] \<mapsto> [7], lastHashKey \<mapsto> [1]], tip = [1]\<rparr>"
  using PutBlock_idempotent [of "demo_env [([7], demo_block [1] [] [])]" "[7]" "\<lparr>db = None, tip = []\<rparr>"]
  by (simp only: demo_PutBlock_first)

section \<open>The tip field and the stored tip\<close>

lemma bucket_Put_Inr:
  "bucket_Put L b key value = Inr b' \<Longrightarrow> b' = b(key \<mapsto> value)"
  by (simp add: bucket_Put_def split: option.splits)

lemma bind_err_Inr:
  "bind_err r f = Inr y \<Longrightarrow> \<exists>x. r = Inr x \<and> f x = Inr y"
  by (cases r) (simp_all add: bind_err_def)

lemma Create_in_sync:
  assumes "CreateBlockchainForNode L address exists = Inr bc"
  shows "tip_in_sync bc"
  using assms
  by (auto simp: CreateBlockchainForNode_def bind_err_def bucket_Put_def tip_in_sync_def
      slice_bytes_def split: if_splits sum.splits option.splits)

lemma Init_in_sync:
  "InitBlockchainForNode file = Inr bc \<Longrightarrow> tip_in_sync bc"
  by (auto simp: InitBlockchainForNode_def tip_in_sync_def Let_def)

lemma AddBlock_in_sync:
  assumes "AddBlock L transactions bc = Some (Inr (bc', h))"
  shows "tip_in_sync bc'"
  using assms
  by (auto simp: AddBlock_def Let_def bind_err_def bucket_Put_def tip_in_sync_def
      slice_bytes_def split: if_splits sum.splits option.splits)

lemma PutBlock_in_sync:
  assumes sync: "tip_in_sync bc"
    and put: "PutBlock L blockData bc = Inr bc'"
    and dec: "DeserializeBlock L blockData = Inr block"
    and key: "Hash block \<noteq> lastHashKey"
  shows "tip_in_sync bc'"
  using put
proof (cases rule: PutBlock_cases)
  case (advance block' b1)
  then show ?thesis
    by (simp add: tip_in_sync_def slice_bytes_def)
next
  case (stay block' b1)
  from stay(1) dec have "block' = block" by simp
  with stay(6) key have "b1 lastHashKey = (case db bc of None \<Rightarrow> None | Some b \<Rightarrow> b lastHashKey)"
    by simp
  with sync show ?thesis
    by (simp add: tip_in_sync_def stay(5))
qed

text \<open>
  The four operations keep the two in step, \<^verbatim>\<open>PutBlock\<close> for a block whose hash is not
  the key \<^verbatim>\<open>"l"\<close> itself.
\<close>

lemma tip_in_sync_operations:
  "(CreateBlockchainForNode L address exists = Inr bc \<longrightarrow> tip_in_sync bc)
   \<and> (InitBlockchainForNode file = Inr bc \<longrightarrow> tip_in_sync bc)
   \<and> (AddBlock L transactions bc0 = Some (Inr (bc, h)) \<longrightarrow> tip_in_sync bc)
   \<and> (tip_in_sync bc0 \<and> PutBlock L blockData bc0 = Inr bc
        \<and> DeserializeBlock L blockData = Inr block \<and> Hash block \<noteq> lastHashKey
       \<longrightarrow> tip_in_sync bc)"
  using Create_in_sync Init_in_sync AddBlock_in_sync PutBlock_in_sync by blast

text \<open>
  C9 fails in the code. Blocks and the tip share one bucket, and \<^verbatim>\<open>PutBlock\<close> stores
  whatever hash the received bytes carry. On the handle \<^verbatim>\<open>InitBlockchainForNode\<close> gives
  for a new file (in step: no entry, empty \<open>tip\<close>), the bytes of a block whose \<open>Hash\<close> is
  \<^verbatim>\<open>"l"\<close> are stored under the tip's own key; the code then reads them back as the current
  tip, finds that the block does not extend it, and returns with the \<open>tip\<close> field still
  empty and the stored tip equal to the block bytes.
\<close>

theorem PutBlock_tip_key_collision:
  "InitBlockchainForNode None = Inr \<lparr>db = Some Map.empty, tip = []\<rparr>
   \<and> tip_in_sync \<lparr>db = Some Map.empty, tip = []\<rparr>
   \<and> PutBlock (demo_env [([7], demo_block lastHashKey [] [])]) [7] \<lparr>db = Some Map.empty, tip = []\<rparr>
       = Inr \<lparr>db = Some [lastHashKey \<mapsto> [7]], tip = []\<rparr>
   \<and> \<not> tip_in_sync \<lparr>db = Some [lastHashKey \<mapsto> [7]], tip = []\<rparr>"
  by (simp add: InitBlockchainForNode_def tip_in_sync_def slice_bytes_def PutBlock_def
      DeserializeBlock_def demo_env_def demo_block_def bind_err_def bucket_Put_def bbolt_Put_def
      lastHashKey_def bytes_of_string_def)

section \<open>Balances\<close>

lemma demo_HashPubKey: "HashPubKey demo_chain_env [4, 5] = demo_pkh"
  by (simp add: HashPubKey_def demo_chain_env_def demo_env_def demo_pkh_def)

lemma EncodeToString_small:
  "EncodeToString [1] = ''01''" "EncodeToString [2] = ''02''" "EncodeToString [3] = ''03''"
  by (simp_all add: EncodeToString_def hextable_def)

lemma demo_Next_tip:
  "Iterator_Next demo_chain_env demo_chain [18] = Inr (Some demo_block2, [17])"
  by (simp add: Iterator_Next_def demo_chain_def demo_chain_env_def demo_env_def
      DeserializeBlock_def bind_err_def lastHashKey_def bytes_of_string_def demo_block2_def demo_block_def)

lemma demo_Next_genesis:
  "Iterator_Next demo_chain_env demo_chain [17] = Inr (Some demo_block1, [])"
  by (simp add: Iterator_Next_def demo_chain_def demo_chain_env_def demo_env_def
      DeserializeBlock_def bind_err_def lastHashKey_def bytes_of_string_def demo_block1_def demo_block_def)

lemma demo_scan_block2:
  "scan_block demo_chain_env demo_pkh (Transactions demo_block2) [] Map.empty
     = ([demo_coinbase [2], demo_self_payment, demo_self_payment], [''01'' \<mapsto> [0]])"
  by (simp add: demo_block2_def demo_block_def demo_coinbase_def demo_self_payment_def
      IsLockedWithKey_def IsCoinbase_def UsesKey_def demo_HashPubKey Let_def slice_bytes_def
      EncodeToString_small)

lemma demo_scan_block1:
  "scan_block demo_chain_env demo_pkh (Transactions demo_block1)
       [demo_coinbase [2], demo_self_payment, demo_self_payment] [''01'' \<mapsto> [0]]
     = ([demo_coinbase [2], demo_self_payment, demo_self_payment], [''01'' \<mapsto> [0]])"
  by (simp add: demo_block1_def demo_block_def demo_coinbase_def
      IsLockedWithKey_def IsCoinbase_def Let_def slice_bytes_def EncodeToString_small)

lemma demo_unspent:
  "FindUnspentTransactions demo_chain_env demo_chain demo_pkh
     = Some (Inr [demo_coinbase [2], demo_self_payment, demo_self_payment])"
proof -
  have prev: "PrevBlockHash demo_block2 = [17]" "PrevBlockHash demo_block1 = []"
    by (simp_all add: demo_block1_def demo_block2_def demo_block_def)
  have tip: "tip demo_chain = [18]"
    by (simp add: demo_chain_def)
  have "FindUnspentTransactions_loop demo_chain_env demo_chain demo_pkh [18] [] Map.empty
        = FindUnspentTransactions_loop demo_chain_env demo_chain demo_pkh [17]
            [demo_coinbase [2], demo_self_payment, demo_self_payment] [''01'' \<mapsto> [0]]"
    by (subst FindUnspentTransactions_loop.simps)
       (simp add: demo_Next_tip demo_scan_block2 prev)
  also have "\<dots> = Some (Inr [demo_coinbase [2], demo_self_payment, demo_self_payment])"
    by (subst FindUnspentTransactions_loop.simps)
       (simp add: demo_Next_genesis demo_scan_block1 prev)
  finally show ?thesis
    by (simp add: FindUnspentTransactions_def tip)
qed

text \<open>
  C1 fails in the code. For every unspent output locked with the key,
  \<^verbatim>\<open>FindUnspentTransactions\<close> appends the whole transaction, and \<^verbatim>\<open>FindUTXO\<close> then takes
  every output of every listed transaction that is locked with the key. A transaction
  with two such outputs is listed twice and each of its outputs is counted twice. On the
  demo chain the key owns three unspent outputs (10, 3 and 7): the specification's
  balance is 20, the code's is 30.
\<close>

theorem FindUTXO_counts_twice:
  "balance_of demo_chain_env demo_chain demo_pkh = Some (Inr 30)
   \<and> spec_balance demo_pkh (Transactions demo_block1 @ Transactions demo_block2) = 20"
proof
  show "balance_of demo_chain_env demo_chain demo_pkh = Some (Inr 30)"
    by (simp add: balance_of_def FindUTXO_def demo_unspent demo_coinbase_def
        demo_self_payment_def IsLockedWithKey_def)
  show "spec_balance demo_pkh (Transactions demo_block1 @ Transactions demo_block2) = 20"
    by (simp add: spec_balance_def spec_referenced_def demo_block1_def demo_block2_def
        demo_block_def demo_coinbase_def demo_self_payment_def IsLockedWithKey_def
        slice_bytes_def enumerate_eq_zip upt_rec)
qed

end
